theory Spec2Isabelle
  imports Complex_Main
begin

section \<open>ECMAScript numbers\<close>

text \<open>
  The panel computes on ECMAScript numbers, that is on IEEE-754 binary64 values. A
  number is \<open>NaN\<close>, one of the two infinities, or a finite value \<open>Fin x\<close>; the sign of
  zero is not kept. Arithmetic rounds: the product and the quotient of two finite numbers
  are the double nearest to the exact result, a tie going to the even significand, and a
  result beyond the largest double is an infinity.
\<close>

datatype jsnum = NaN | NegInf | PosInf | Fin real

text \<open>Rounding to the nearest integer, a tie going to the even one.\<close>

definition round_half_even :: "real \<Rightarrow> int" where
  "round_half_even q =
     (let f = \<lfloor>q\<rfloor>; r = q - of_int f
      in if r < 1 / 2 then f else if 1 / 2 < r then f + 1 else if even f then f else f + 1)"

text \<open>
  The exponent of the unit in the last place of the doubles around \<open>x\<close>: 52 below the
  binary exponent of \<open>x\<close>, and -1074 throughout the subnormal range.
\<close>

definition exponent :: "real \<Rightarrow> int" where
  "exponent x = max \<lfloor>log 2 \<bar>x\<bar>\<rfloor> (- 1022) - 52"

text \<open>The Number value for a real: round to nearest, ties to even, overflow to infinity.\<close>

definition to_double :: "real \<Rightarrow> jsnum" where
  "to_double x =
     (if x = 0 then Fin 0
      else let e = exponent x;
               v = of_int (round_half_even (x / 2 powr e)) * 2 powr e
           in if 2 powr 1024 \<le> \<bar>v\<bar> then (if 0 < x then PosInf else NegInf) else Fin v)"

text \<open>\<open>x > y\<close>\<close>

fun js_gt :: "jsnum \<Rightarrow> jsnum \<Rightarrow> bool" where
  "js_gt NaN _ = False"
| "js_gt _ NaN = False"
| "js_gt PosInf y = (y \<noteq> PosInf)"
| "js_gt NegInf _ = False"
| "js_gt (Fin a) PosInf = False"
| "js_gt (Fin a) NegInf = True"
| "js_gt (Fin a) (Fin b) = (b < a)"

text \<open>\<open>x === y\<close>\<close>

fun js_strict_eq :: "jsnum \<Rightarrow> jsnum \<Rightarrow> bool" where
  "js_strict_eq NaN _ = False"
| "js_strict_eq _ NaN = False"
| "js_strict_eq x y = (x = y)"

text \<open>\<open>x >= y\<close>\<close>

definition js_ge :: "jsnum \<Rightarrow> jsnum \<Rightarrow> bool" where
  "js_ge x y = (js_gt x y \<or> js_strict_eq x y)"

text \<open>\<open>x * y\<close>\<close>

fun js_mul :: "jsnum \<Rightarrow> jsnum \<Rightarrow> jsnum" where
  "js_mul NaN _ = NaN"
| "js_mul _ NaN = NaN"
| "js_mul (Fin a) (Fin b) = to_double (a * b)"
| "js_mul (Fin a) PosInf = (if a = 0 then NaN else if 0 < a then PosInf else NegInf)"
| "js_mul (Fin a) NegInf = (if a = 0 then NaN else if 0 < a then NegInf else PosInf)"
| "js_mul PosInf (Fin b) = (if b = 0 then NaN else if 0 < b then PosInf else NegInf)"
| "js_mul NegInf (Fin b) = (if b = 0 then NaN else if 0 < b then NegInf else PosInf)"
| "js_mul PosInf PosInf = PosInf"
| "js_mul PosInf NegInf = NegInf"
| "js_mul NegInf PosInf = NegInf"
| "js_mul NegInf NegInf = PosInf"

text \<open>\<open>x / y\<close>\<close>

fun js_div :: "jsnum \<Rightarrow> jsnum \<Rightarrow> jsnum" where
  "js_div NaN _ = NaN"
| "js_div _ NaN = NaN"
| "js_div (Fin a) (Fin b) =
     (if b \<noteq> 0 then to_double (a / b)
      else if a = 0 then NaN else if 0 < a then PosInf else NegInf)"
| "js_div (Fin a) _ = Fin 0"
| "js_div PosInf (Fin b) = (if 0 \<le> b then PosInf else NegInf)"
| "js_div NegInf (Fin b) = (if 0 \<le> b then NegInf else PosInf)"
| "js_div _ _ = NaN"

text \<open>
  \<open>Math.abs\<close>, \<open>Math.floor\<close>, \<open>Math.ceil\<close> and \<open>Math.round\<close> are exact: their
  result on a double is a double. \<open>Math.round\<close> rounds to the nearest integer, a tie
  going up.
\<close>

fun Math_abs :: "jsnum \<Rightarrow> jsnum" where
  "Math_abs NaN = NaN"
| "Math_abs NegInf = PosInf"
| "Math_abs PosInf = PosInf"
| "Math_abs (Fin a) = Fin \<bar>a\<bar>"

fun Math_floor :: "jsnum \<Rightarrow> jsnum" where
  "Math_floor (Fin a) = Fin (of_int \<lfloor>a\<rfloor>)"
| "Math_floor x = x"

fun Math_ceil :: "jsnum \<Rightarrow> jsnum" where
  "Math_ceil (Fin a) = Fin (of_int \<lceil>a\<rceil>)"
| "Math_ceil x = x"

fun Math_round :: "jsnum \<Rightarrow> jsnum" where
  "Math_round (Fin a) = Fin (of_int \<lfloor>a + 1 / 2\<rfloor>)"
| "Math_round x = x"

text \<open>
  \<open>Math.log10\<close>, \<open>Math.pow\<close> and \<open>Math.tanh\<close> are the engine's. They are taken to
  return the double nearest to the exact value; \<open>Math.pow\<close> is needed for the base 10
  only.
\<close>

fun Math_log10 :: "jsnum \<Rightarrow> jsnum" where
  "Math_log10 NaN = NaN"
| "Math_log10 NegInf = NaN"
| "Math_log10 PosInf = PosInf"
| "Math_log10 (Fin a) =
     (if a < 0 then NaN else if a = 0 then NegInf else to_double (log 10 a))"

fun Math_pow10 :: "jsnum \<Rightarrow> jsnum" where
  "Math_pow10 NaN = NaN"
| "Math_pow10 NegInf = Fin 0"
| "Math_pow10 PosInf = PosInf"
| "Math_pow10 (Fin y) = to_double (10 powr y)"

fun Math_tanh :: "jsnum \<Rightarrow> jsnum" where
  "Math_tanh NaN = NaN"
| "Math_tanh NegInf = Fin (- 1)"
| "Math_tanh PosInf = Fin 1"
| "Math_tanh (Fin a) = to_double (tanh a)"

fun max2 :: "jsnum \<Rightarrow> jsnum \<Rightarrow> jsnum" where
  "max2 NaN _ = NaN"
| "max2 _ NaN = NaN"
| "max2 x y = (if js_gt y x then y else x)"

text \<open>\<open>Math.max(...xs)\<close>: \<open>-Infinity\<close> on no argument, \<open>NaN\<close> as soon as one argument is.\<close>

definition Math_max :: "jsnum list \<Rightarrow> jsnum" where
  "Math_max xs = foldl max2 NegInf xs"


section \<open>The keyword chart's axis ceiling\<close>

text \<open>
  \<open>renderResultCharts\<close>, "Dynamic Scaling for Keyword Chart": \<open>scores\<close> is
  \<open>data.keywords.map(k => k.score)\<close>. The literals \<open>0.1\<close> and \<open>0.01\<close> are the doubles
  nearest to one tenth and one hundredth.
\<close>

definition magnitude :: "jsnum \<Rightarrow> jsnum" where
  "magnitude maxAbsScore = Math_pow10 (Math_floor (Math_log10 maxAbsScore))"

definition chartMax :: "jsnum list \<Rightarrow> jsnum" where
  "chartMax scores =
     (let maxAbsScore = Math_max (map Math_abs scores);
          chartMax =
            (if js_gt maxAbsScore (to_double (1 / 10)) then Fin 1
             else js_mul (Math_ceil (js_div maxAbsScore (magnitude maxAbsScore)))
                         (magnitude maxAbsScore))
      in if js_strict_eq chartMax (Fin 0) then to_double (1 / 100) else chartMax)"


section \<open>The panel's document\<close>

text \<open>
  The markup of the panel is not part of the sources, so the document is a parameter:
  the elements that navigation reaches (the pages, and whatever else carries an id) in
  document order, each with its id and its class list, and, for every \<open>.navigation\<close>
  element, the class lists of its \<open>.list\<close> items in order.
\<close>

record element =
  eid :: "string option"
  classList :: "string list"

text \<open>\<open>classList.add\<close> and \<open>classList.remove\<close>: a class list is an ordered set.\<close>

definition classList_add :: "string \<Rightarrow> string list \<Rightarrow> string list" where
  "classList_add c cs = (if c \<in> set cs then cs else cs @ [c])"

definition classList_remove :: "string \<Rightarrow> string list \<Rightarrow> string list" where
  "classList_remove c cs = filter (\<lambda>x. x \<noteq> c) cs"

text \<open>
  \<open>document.getElementById\<close>: the position of the first element with that id. An
  element without an id, or with an empty one, is never found.
\<close>

definition getElementById :: "element list \<Rightarrow> string \<Rightarrow> nat option" where
  "getElementById els pageId =
     (if pageId = [] then None
      else case filter (\<lambda>i. eid (els ! i) = Some pageId) [0..<length els] of
             [] \<Rightarrow> None
           | i # _ \<Rightarrow> Some i)"

text \<open>
  The content of the preview area and of what \<open>displayContentForPreview\<close> builds: text
  nodes and elements with a tag name, a class list, the \<open>src\<close> property (empty unless
  the element is an image with a source; URL resolution is not modelled) and children.
\<close>

datatype node =
  Text string
| Element (tagName: string) (classes: "string list") (src: string) (childNodes: "node list")

fun textContent :: "node \<Rightarrow> string" where
  "textContent (Text s) = s"
| "textContent (Element t c s ns) = concat (map textContent ns)"

text \<open>\<open>querySelector('img')\<close> over the given children: the first image in tree order.\<close>

fun querySelector_img :: "node list \<Rightarrow> node option" where
  "querySelector_img [] = None"
| "querySelector_img (Text s # ns) = querySelector_img ns"
| "querySelector_img (Element t c s cs # ns) =
     (if t = ''IMG'' then Some (Element t c s cs)
      else case querySelector_img cs of
             Some img \<Rightarrow> Some img
           | None \<Rightarrow> querySelector_img ns)"


section \<open>Selected content, requests and analysis results\<close>

text \<open>
  The value in the persisted slot \<open>contentToAnalyze\<close> is an object
  \<open>{type, data}\<close>; either field may be missing, and \<open>{}\<close> has neither.
\<close>

record content =
  type :: "string option"
  data :: "string option"

text \<open>
  The body of the POST, \<open>{type, value}\<close>; the fields carry a prefix because \<open>value\<close>
  is a command name.
\<close>

record request =
  req_type :: string
  req_value :: string

text \<open>
  A value of the service's JSON answer; \<open>JAbsent\<close> is a property that is not there. A
  number is given by the real its literal denotes.
\<close>

datatype json =
  JNumber real
| JString string
| JBool bool
| JNull
| JArray "json list"
| JObject
| JAbsent

text \<open>
  \<open>parseFloat\<close> converts its argument to a string and reads a number from the longest
  numeric prefix. A number comes back as the double of its literal. How a string is read
  is the parameter \<open>strtod\<close>. An array is converted by joining its elements with
  commas, so the result is that of its first element, if any. \<open>null\<close>, a boolean, an
  object and an absent property give \<open>NaN\<close>.
\<close>

fun parseFloat :: "(string \<Rightarrow> jsnum) \<Rightarrow> json \<Rightarrow> jsnum" where
  "parseFloat strtod (JNumber r) = to_double r"
| "parseFloat strtod (JString s) = strtod s"
| "parseFloat strtod (JArray (x # xs)) = parseFloat strtod x"
| "parseFloat strtod (JArray []) = NaN"
| "parseFloat strtod (JBool b) = NaN"
| "parseFloat strtod JNull = NaN"
| "parseFloat strtod JObject = NaN"
| "parseFloat strtod JAbsent = NaN"

text \<open>
  \<open>analysisData\<close>: \<open>confidence\<close> maps a label to its property, and \<open>words\<close> lists the
  items, each with its \<open>word\<close> and its \<open>weight\<close>. \<open>None\<close> stands for a \<open>confidence\<close>
  that is \<open>null\<close> or missing, for a \<open>words\<close> that is not an array, and for an item that
  is \<open>null\<close>: the places where reading a property throws.
\<close>

record analysisData =
  confidence :: "(string \<Rightarrow> json) option"
  words :: "(json \<times> json) option list option"

record split =
  fake :: jsnum
  neutral :: jsnum
  real' :: jsnum

record keyword =
  word :: json
  score :: jsnum
  weight :: jsnum

text \<open>
  \<open>formattedData\<close>, the chart-ready value. Its \<open>confidence\<close> is the field
  \<open>percent\<close> (the name \<open>confidence\<close> is taken by the raw answer), and its
  \<open>keywords\<close> is \<open>keywords'\<close> (the plain name is reserved).
\<close>

record chartData =
  percent :: split
  keywords' :: "keyword list"

text \<open>
  What the \<open>catch\<close> clause of the analyze handler can receive: a rejected \<open>fetch\<close>,
  the \<open>Error\<close> thrown on a status outside 200..299, a rejected \<open>response.json()\<close>,
  and the \<open>TypeError\<close> of reading a property of \<open>undefined\<close> or \<open>null\<close>.
\<close>

datatype error =
  NetworkError string
| ServerError nat
| SyntaxError string
| TypeError

text \<open>The callback of \<open>analysisData.words.map\<close>, item by item.\<close>

fun normalize_words :: "(string \<Rightarrow> jsnum) \<Rightarrow> (json \<times> json) option list \<Rightarrow> error + keyword list" where
  "normalize_words strtod [] = Inr []"
| "normalize_words strtod (None # items) = Inl TypeError"
| "normalize_words strtod (Some (w, wt) # items) =
     (let raw = parseFloat strtod wt;
          normalized = Math_tanh raw
      in case normalize_words strtod items of
           Inl err \<Rightarrow> Inl err
         | Inr ks \<Rightarrow> Inr (\<lparr>word = w, score = normalized, weight = raw\<rparr> # ks))"

text \<open>
  The object literal \<open>formattedData\<close> of the analyze handler. Reading
  \<open>analysisData.confidence["Fake News"]\<close>, calling \<open>analysisData.words.map\<close> or
  reading \<open>item.weight\<close> throws where the object is missing.
\<close>

definition formattedData :: "(string \<Rightarrow> jsnum) \<Rightarrow> analysisData \<Rightarrow> error + chartData" where
  "formattedData strtod a =
     (case confidence a of
        None \<Rightarrow> Inl TypeError
      | Some c \<Rightarrow>
          (case words a of
             None \<Rightarrow> Inl TypeError
           | Some items \<Rightarrow>
               (case normalize_words strtod items of
                  Inl err \<Rightarrow> Inl err
                | Inr ks \<Rightarrow>
                    Inr \<lparr>percent =
                           \<lparr>fake = Math_round (js_mul (parseFloat strtod (c ''Fake News'')) (Fin 100)),
                            neutral = Fin 0,
                            real' = Math_round (js_mul (parseFloat strtod (c ''Real News'')) (Fin 100))\<rparr>,
                         keywords' = ks\<rparr>)))"

text \<open>\<open>statusClass\<close> in \<open>renderResultCharts\<close>.\<close>

definition statusClass :: "split \<Rightarrow> string" where
  "statusClass c =
     (let rawReal = js_div (real' c) (Fin 100);
          rawFake = js_div (fake c) (Fin 100)
      in if js_ge rawReal rawFake then ''real-news'' else ''fake-news'')"


section \<open>The panel\<close>

text \<open>What \<open>#result-content\<close> shows.\<close>

datatype result_view =
  Markup string
| Analyzing
| Failed error
| Rendered string chartData

text \<open>
  The state of the panel: the document, and the properties of the elements the handlers
  touch. \<open>navButton\<close> is the \<open>style.display\<close> of the first \<open>.nav-button\<close>, if there
  is one. \<open>console\<close> collects the messages of \<open>console.error\<close> and \<open>requests\<close> the
  bodies of the POSTs issued. \<open>timers\<close> counts the 100 ms placeholder timers not yet
  fired, \<open>awaiting\<close> the handler runs suspended at \<open>await fetch\<close>, and \<open>frames\<close>
  holds the data of the animation-frame callbacks not yet run.
\<close>

record panel =
  elements :: "element list"
  navigation :: "string list list list"
  bodyClasses :: "string list"
  contentDisplay :: "node list"
  resultContent :: result_view
  analyzeDisabled :: bool
  btnText :: string
  spinnerHidden :: bool
  navButton :: "string option"
  console :: "string list"
  requests :: "request list"
  timers :: nat
  awaiting :: nat
  frames :: "chartData list"

text \<open>
  \<open>updateNavIndicator\<close>, given the id of the active page. \<open>pages\<close> is the node list of
  \<open>querySelectorAll('.page')\<close>; no handler adds or removes the class \<open>page\<close>, so the
  elements carrying it now are the ones captured at start-up.
\<close>

definition updateNavIndicator :: "string option \<Rightarrow> panel \<Rightarrow> panel" where
  "updateNavIndicator pageId p =
     (let activeIndex = (0::nat);
          activeIndex = (if pageId = Some ''page-select'' then 1 else activeIndex);
          activeIndex = (if pageId = Some ''page-preview'' then 2 else activeIndex);
          activeIndex = (if pageId = Some ''page-result'' then 3 else activeIndex)
      in p\<lparr>navigation :=
             map (\<lambda>listItems.
                    let items = map (classList_remove ''active'') listItems
                    in if activeIndex > 0 \<and> length items \<ge> activeIndex
                       then items[activeIndex - 1 := classList_add ''active'' (items ! (activeIndex - 1))]
                       else items)
                 (navigation p)\<rparr>)"

definition hide_pages :: "element list \<Rightarrow> element list" where
  "hide_pages els =
     map (\<lambda>page. if ''page'' \<in> set (classList page)
                  then page\<lparr>classList := classList_add ''hidden'' (classList page)\<rparr>
                  else page) els"

definition navigateTo :: "string \<Rightarrow> panel \<Rightarrow> panel" where
  "navigateTo pageId p =
     (let els = hide_pages (elements p)
      in case getElementById els pageId of
           None \<Rightarrow> p\<lparr>elements := els\<rparr>
         | Some t \<Rightarrow>
             let targetPage = (els ! t)\<lparr>classList := classList_remove ''hidden'' (classList (els ! t))\<rparr>
             in updateNavIndicator (eid targetPage) (p\<lparr>elements := els[t := targetPage]\<rparr>))"

text \<open>The pages that are shown: the positions of the pages without the class \<open>hidden\<close>.\<close>

definition visible_pages :: "panel \<Rightarrow> nat list" where
  "visible_pages p =
     filter (\<lambda>i. ''page'' \<in> set (classList (elements p ! i)) \<and>
                  ''hidden'' \<notin> set (classList (elements p ! i)))
            [0..<length (elements p)]"

text \<open>The ids of the known pages.\<close>

definition page_ids :: "panel \<Rightarrow> string option list" where
  "page_ids p = map eid (filter (\<lambda>e. ''page'' \<in> set (classList e)) (elements p))"

text \<open>
  \<open>displayContentForPreview\<close>. Assigning \<open>undefined\<close> to \<open>textContent\<close> leaves the
  block empty; assigning it to \<open>img.src\<close> stores the string \<open>undefined\<close>. The sources
  that the Coordinator and the Selection Relay store are absolute URLs (\<open>info.srcUrl\<close>
  and the \<open>src\<close> property of the clicked image), which \<open>img.src\<close> returns as assigned.
\<close>

definition displayContentForPreview :: "content \<Rightarrow> panel \<Rightarrow> panel" where
  "displayContentForPreview c p =
     (if type c = Some ''text'' then
        p\<lparr>contentDisplay :=
            [Element ''BLOCKQUOTE'' [] []
               (case data c of None \<Rightarrow> [] | Some s \<Rightarrow> if s = [] then [] else [Text s])]\<rparr>
      else if type c = Some ''image'' then
        p\<lparr>contentDisplay :=
            [Element ''DIV'' [''preview-image-wrapper''] []
               [Element ''IMG'' [] (case data c of None \<Rightarrow> ''undefined'' | Some s \<Rightarrow> s) []]]\<rparr>
      else p\<lparr>contentDisplay := []\<rparr>)"


section \<open>The analyze handler\<close>

text \<open>\<open>contentToAnalyze\<close>, read back from the first child of the preview area; \<open>None\<close> is \<open>{}\<close>.\<close>

definition contentToAnalyze :: "node list \<Rightarrow> request option" where
  "contentToAnalyze display =
     (case display of
        [] \<Rightarrow> None
      | firstChild # _ \<Rightarrow>
          (case firstChild of
             Text _ \<Rightarrow> None
           | Element tag cls _ children \<Rightarrow>
               if tag = ''BLOCKQUOTE'' then
                 Some \<lparr>req_type = ''text'', req_value = textContent firstChild\<rparr>
               else if tag = ''DIV'' \<and> ''preview-image-wrapper'' \<in> set cls then
                 (case querySelector_img children of
                    None \<Rightarrow> None
                  | Some img \<Rightarrow> Some \<lparr>req_type = ''image'', req_value = src img\<rparr>)
               else None))"

text \<open>\<open>!contentToAnalyze.value\<close>: no value, or the empty string.\<close>

definition no_value :: "request option \<Rightarrow> bool" where
  "no_value r = (case r of None \<Rightarrow> True | Some q \<Rightarrow> req_value q = [])"

text \<open>
  The handler up to its first suspension: it validates, switches the controls to the
  analyzing state, navigates to the Result page, starts the 100 ms timer and calls
  \<open>fetch\<close>.
\<close>

definition analyzeBtn_click :: "panel \<Rightarrow> panel" where
  "analyzeBtn_click p =
     (let contentToAnalyze = contentToAnalyze (contentDisplay p)
      in if no_value contentToAnalyze then p\<lparr>console := console p @ [''No content to analyze.'']\<rparr>
         else
           (navigateTo ''page-result''
              (p\<lparr>analyzeDisabled := True, btnText := ''Analyzing'', spinnerHidden := False\<rparr>))
           \<lparr>timers := Suc (timers p),
            requests := requests p @ [the contentToAnalyze],
            awaiting := Suc (awaiting p)\<rparr>)"

text \<open>The callback of the 100 ms timer.\<close>

definition placeholder_timeout :: "panel \<Rightarrow> panel" where
  "placeholder_timeout p =
     p\<lparr>navButton := map_option (\<lambda>_. ''none'') (navButton p),
       resultContent := Analyzing\<rparr>"

text \<open>
  How the request ends: \<open>fetch\<close> rejects, or it resolves with a status and a body on
  which \<open>response.json()\<close> either rejects or yields the answer.
\<close>

datatype fetch_outcome =
  Rejected string
| Responded nat "string + analysisData"

text \<open>The rest of the \<open>try\<close> block: what it throws, or the data it hands to the next frame.\<close>

definition try_block :: "(string \<Rightarrow> jsnum) \<Rightarrow> fetch_outcome \<Rightarrow> error + chartData" where
  "try_block strtod outcome =
     (case outcome of
        Rejected msg \<Rightarrow> Inl (NetworkError msg)
      | Responded status body \<Rightarrow>
          if \<not> (200 \<le> status \<and> status \<le> 299) then Inl (ServerError status)
          else (case body of
                  Inl msg \<Rightarrow> Inl (SyntaxError msg)
                | Inr analysisData \<Rightarrow> formattedData strtod analysisData))"

text \<open>The handler from the settled request on: \<open>try\<close>, \<open>catch\<close>, \<open>finally\<close>.\<close>

definition fetch_settled :: "(string \<Rightarrow> jsnum) \<Rightarrow> fetch_outcome \<Rightarrow> panel \<Rightarrow> panel" where
  "fetch_settled strtod outcome p =
     (let p1 = (case try_block strtod outcome of
                  Inr formatted \<Rightarrow> p\<lparr>frames := frames p @ [formatted]\<rparr>
                | Inl err \<Rightarrow>
                    p\<lparr>console := console p @ [''Error analyzing content:''],
                      resultContent := Failed err,
                      navButton := map_option (\<lambda>_. ''inline-flex'') (navButton p)\<rparr>)
      in p1\<lparr>analyzeDisabled := False, btnText := ''Start Analyze'', spinnerHidden := True\<rparr>)"

text \<open>
  \<open>renderResultCharts\<close> replaces the content of \<open>#result-content\<close> by the status
  block and two canvases and draws both charts from \<open>data\<close>; the view keeps the status
  class and the data. The axis ceiling it computes on the way is \<open>chartMax\<close> above; the
  bar chart's axis is fixed to -1..1 and does not use it.
\<close>

definition renderResultCharts :: "chartData \<Rightarrow> panel \<Rightarrow> panel" where
  "renderResultCharts d p = p\<lparr>resultContent := Rendered (statusClass (percent d)) d\<rparr>"

text \<open>The animation-frame callback: \<open>renderResultCharts\<close>, then the button is shown again.\<close>

definition animation_frame :: "chartData \<Rightarrow> panel \<Rightarrow> panel" where
  "animation_frame formatted p =
     (let p1 = renderResultCharts formatted p
      in p1\<lparr>navButton := map_option (\<lambda>_. []) (navButton p1)\<rparr>)"

text \<open>
  The panel is single-threaded: the browser runs one callback at a time, in the order
  in which the click, the timer, the answer and the frame occur. A disabled button
  receives no click, and a callback runs only if it is pending.
\<close>

datatype event = Click | Timeout | Settled fetch_outcome | AnimationFrame

definition step :: "(string \<Rightarrow> jsnum) \<Rightarrow> panel \<Rightarrow> event \<Rightarrow> panel" where
  "step strtod p ev =
     (case ev of
        Click \<Rightarrow> if analyzeDisabled p then p else analyzeBtn_click p
      | Timeout \<Rightarrow>
          if timers p = 0 then p else placeholder_timeout (p\<lparr>timers := timers p - 1\<rparr>)
      | Settled outcome \<Rightarrow>
          if awaiting p = 0 then p else fetch_settled strtod outcome (p\<lparr>awaiting := awaiting p - 1\<rparr>)
      | AnimationFrame \<Rightarrow>
          (case frames p of
             [] \<Rightarrow> p
           | formatted # rest \<Rightarrow> animation_frame formatted (p\<lparr>frames := rest\<rparr>)))"

definition run_events :: "(string \<Rightarrow> jsnum) \<Rightarrow> panel \<Rightarrow> event list \<Rightarrow> panel" where
  "run_events strtod p evs = foldl (step strtod) p evs"


section \<open>The persisted slot and its listeners\<close>

datatype effect =
  StorageSet string content
| StorageRemove string
| SidePanelOpen nat

record change =
  oldValue :: "content option"
  newValue :: "content option"

text \<open>The listener of \<open>chrome.storage.onChanged\<close> in the panel, with the calls it makes.\<close>

definition storage_onChanged :: "(string \<rightharpoonup> change) \<Rightarrow> string \<Rightarrow> panel \<Rightarrow> panel \<times> effect list" where
  "storage_onChanged changes namespace p =
     (if namespace = ''local'' then
        (case changes ''contentToAnalyze'' of
           None \<Rightarrow> (p, [])
         | Some ch \<Rightarrow>
             (case newValue ch of
                None \<Rightarrow> (p, [])
              | Some newContent \<Rightarrow>
                  (navigateTo ''page-preview''
                     (displayContentForPreview newContent
                        (p\<lparr>bodyClasses := classList_remove ''selection-mode-active'' (bodyClasses p)\<rparr>)),
                   [StorageRemove ''contentToAnalyze''])))
      else (p, []))"

text \<open>The argument of the context-menu listener of the Coordinator.\<close>

record info =
  selectionText :: "string option"
  mediaType :: "string option"
  srcUrl :: "string option"

definition dataToAnalyze :: "info \<Rightarrow> content" where
  "dataToAnalyze i =
     (if selectionText i \<noteq> None \<and> selectionText i \<noteq> Some [] then
        \<lparr>type = Some ''text'', data = selectionText i\<rparr>
      else if mediaType i = Some ''image'' then
        \<lparr>type = Some ''image'', data = srcUrl i\<rparr>
      else \<lparr>type = None, data = None\<rparr>)"

text \<open>
  The context-menu listener: the write, and in its callback the opening of the side
  panel for \<open>tab.id\<close>. The browser passes no \<open>tab\<close> for a click outside a tab; reading
  \<open>tab.id\<close> then throws in the callback, after the write, and nothing is opened.
\<close>

definition contextMenus_onClicked :: "info \<Rightarrow> nat option \<Rightarrow> effect list" where
  "contextMenus_onClicked i tab =
     StorageSet ''contentToAnalyze'' (dataToAnalyze i) #
     (case tab of None \<Rightarrow> [] | Some tabId \<Rightarrow> [SidePanelOpen tabId])"

text \<open>
  The extension as a whole: the local storage area, the side panel if it is open, the
  panel as its document loads, and the tabs for which the side panel was opened.
  \<open>chrome.storage\<close> reports a write or a removal to the listeners that exist at that
  moment, when it changes the stored value and only then. The panel registers its
  listener when its document has loaded and never reads the slot itself, so a panel that
  is opened later learns nothing of an earlier write.
\<close>

record extension =
  storage :: "string \<rightharpoonup> content"
  sidepanel :: "panel option"
  markup :: panel
  opened :: "nat list"

definition storage_write :: "string \<Rightarrow> content option \<Rightarrow> extension \<Rightarrow> extension \<times> effect list" where
  "storage_write k v x =
     (if storage x k = v then (x, [])
      else
        (case sidepanel x of
           None \<Rightarrow> (x\<lparr>storage := (storage x)(k := v)\<rparr>, [])
         | Some listening \<Rightarrow>
             let (p, calls) =
                   storage_onChanged [k \<mapsto> \<lparr>oldValue = storage x k, newValue = v\<rparr>] ''local'' listening
             in (x\<lparr>storage := (storage x)(k := v), sidepanel := Some p\<rparr>, calls)))"

text \<open>\<open>chrome.sidePanel.open\<close>: a closed panel loads its document, an open one stays.\<close>

definition sidePanel_open :: "nat \<Rightarrow> extension \<Rightarrow> extension" where
  "sidePanel_open tabId x =
     x\<lparr>opened := opened x @ [tabId],
       sidepanel := (case sidepanel x of None \<Rightarrow> Some (markup x) | Some p \<Rightarrow> Some p)\<rparr>"

text \<open>
  Performing the calls in order, each followed later by the calls its listener makes.
  The fuel bounds the number of calls performed; \<open>None\<close> means it ran out.
\<close>

fun perform :: "nat \<Rightarrow> effect list \<Rightarrow> extension \<Rightarrow> extension option" where
  "perform n [] x = Some x"
| "perform 0 (c # cs) x = None"
| "perform (Suc n) (SidePanelOpen t # cs) x = perform n cs (sidePanel_open t x)"
| "perform (Suc n) (StorageSet k v # cs) x =
     (let (x', more) = storage_write k (Some v) x in perform n (cs @ more) x')"
| "perform (Suc n) (StorageRemove k # cs) x =
     (let (x', more) = storage_write k None x in perform n (cs @ more) x')"


section \<open>A sample panel\<close>

text \<open>
  A panel as the handlers expect it, used to run them on concrete input: the four pages
  in order with Intro shown, one navigation bar with three items, an empty preview area
  and a \<open>.nav-button\<close>.
\<close>

definition sample_panel :: panel where
  "sample_panel =
     \<lparr>elements =
        [\<lparr>eid = Some ''page-intro'', classList = [''page'']\<rparr>,
         \<lparr>eid = Some ''page-select'', classList = [''page'', ''hidden'']\<rparr>,
         \<lparr>eid = Some ''page-preview'', classList = [''page'', ''hidden'']\<rparr>,
         \<lparr>eid = Some ''page-result'', classList = [''page'', ''hidden'']\<rparr>],
      navigation = [[[''list''], [''list''], [''list'']]],
      bodyClasses = [''selection-mode-active''],
      contentDisplay = [],
      resultContent = Markup [],
      analyzeDisabled = False,
      btnText = ''Start Analyze'',
      spinnerHidden = True,
      navButton = Some [],
      console = [],
      requests = [],
      timers = 0,
      awaiting = 0,
      frames = []\<rparr>"

text \<open>The same panel previewing the text \<open>hello world\<close>, on the Preview page.\<close>

definition preview_panel :: panel where
  "preview_panel =
     navigateTo ''page-preview''
       (displayContentForPreview \<lparr>type = Some ''text'', data = Some ''hello world''\<rparr> sample_panel)"


text \<open>The extension with an empty slot, that panel open, and no tab served yet.\<close>

definition sample_extension :: extension where
  "sample_extension =
     \<lparr>storage = Map.empty, sidepanel = Some sample_panel, markup = sample_panel, opened = []\<rparr>"

text \<open>The same with the side panel closed.\<close>

definition closed_extension :: extension where
  "closed_extension =
     \<lparr>storage = Map.empty, sidepanel = None, markup = sample_panel, opened = []\<rparr>"


section \<open>Navigation: auxiliary facts\<close>

lemma length_hide_pages [simp]: "length (hide_pages els) = length els"
  by (simp add: hide_pages_def)

lemma eid_hide_pages [simp]: "i < length els \<Longrightarrow> eid (hide_pages els ! i) = eid (els ! i)"
  by (simp add: hide_pages_def)

lemma page_hide_pages [simp]:
  "i < length els \<Longrightarrow>
     ''page'' \<in> set (classList (hide_pages els ! i)) \<longleftrightarrow> ''page'' \<in> set (classList (els ! i))"
  by (simp add: hide_pages_def classList_add_def)

lemma hidden_hide_pages:
  "i < length els \<Longrightarrow> ''page'' \<in> set (classList (els ! i)) \<Longrightarrow>
     ''hidden'' \<in> set (classList (hide_pages els ! i))"
  by (simp add: hide_pages_def classList_add_def)

lemma filter_upt_cong:
  "(\<And>i. i < n \<Longrightarrow> P i = Q i) \<Longrightarrow> filter P [0..<n] = filter Q [0..<n]"
  by (rule filter_cong) simp_all

lemma getElementById_hide_pages [simp]:
  "getElementById (hide_pages els) s = getElementById els s"
proof -
  have "filter (\<lambda>i. eid (hide_pages els ! i) = Some s) [0..<length els]
      = filter (\<lambda>i. eid (els ! i) = Some s) [0..<length els]"
    by (rule filter_upt_cong) simp
  then show ?thesis
    by (simp add: getElementById_def)
qed

lemma getElementById_Some:
  assumes "getElementById els s = Some t"
  shows "t < length els \<and> eid (els ! t) = Some s"
proof -
  from assms obtain rest where
    "filter (\<lambda>i. eid (els ! i) = Some s) [0..<length els] = t # rest"
    by (auto simp: getElementById_def split: if_splits list.splits)
  then have "t \<in> set (filter (\<lambda>i. eid (els ! i) = Some s) [0..<length els])"
    by simp
  then show ?thesis by simp
qed

lemma updateNavIndicator_elements [simp]:
  "elements (updateNavIndicator i p) = elements p"
  by (simp add: updateNavIndicator_def Let_def)

lemma filter_eq_upt: "filter (\<lambda>i. i = t) [0..<n] = (if t < n then [t] else [])"
  by (induction n) auto

lemma filter_upt_single:
  assumes "t < n" and "\<And>i. i < n \<Longrightarrow> P i \<longleftrightarrow> i = t"
  shows "filter P [0..<n] = [t]"
proof -
  have "filter P [0..<n] = filter (\<lambda>i. i = t) [0..<n]"
    using assms(2) by (rule filter_upt_cong)
  with assms(1) show ?thesis
    by (simp add: filter_eq_upt)
qed

lemma page_ids_nth:
  "t < length (elements p) \<Longrightarrow> ''page'' \<in> set (classList (elements p ! t)) \<Longrightarrow>
     eid (elements p ! t) \<in> set (page_ids p)"
  by (simp add: page_ids_def)

lemma navigateTo_None:
  "getElementById (elements p) pageId = None \<Longrightarrow>
     navigateTo pageId p = p\<lparr>elements := hide_pages (elements p)\<rparr>"
  by (simp add: navigateTo_def)

lemma navigateTo_Some:
  "getElementById (elements p) pageId = Some t \<Longrightarrow>
     navigateTo pageId p =
       updateNavIndicator (Some pageId)
         (p\<lparr>elements := (hide_pages (elements p))
               [t := (hide_pages (elements p) ! t)
                  \<lparr>classList := classList_remove ''hidden'' (classList (hide_pages (elements p) ! t))\<rparr>]\<rparr>)"
  using getElementById_Some [of "elements p" pageId t]
  by (simp add: navigateTo_def Let_def)

lemma visible_pages_updateNavIndicator [simp]:
  "visible_pages (updateNavIndicator i p) = visible_pages p"
  by (simp add: visible_pages_def)

lemma visible_pages_hide_pages [simp]:
  "visible_pages (p\<lparr>elements := hide_pages (elements p)\<rparr>) = []"
  by (simp add: visible_pages_def filter_empty_conv hidden_hide_pages)

lemma navigateTo_unknown:
  assumes "Some pageId \<notin> set (page_ids p)"
  shows "visible_pages (navigateTo pageId p) = []"
proof (cases "getElementById (elements p) pageId")
  case None
  then show ?thesis
    by (simp add: navigateTo_None)
next
  case (Some t)
  then have t: "t < length (elements p)" "eid (elements p ! t) = Some pageId"
    using getElementById_Some [of "elements p" pageId t] by simp_all
  with assms page_ids_nth [of t p] have np: "''page'' \<notin> set (classList (elements p ! t))"
    by auto
  have "\<not> (''page'' \<in> set (classList (((hide_pages (elements p))
               [t := (hide_pages (elements p) ! t)
                  \<lparr>classList := classList_remove ''hidden'' (classList (hide_pages (elements p) ! t))\<rparr>]) ! i)) \<and>
            ''hidden'' \<notin> set (classList (((hide_pages (elements p))
               [t := (hide_pages (elements p) ! t)
                  \<lparr>classList := classList_remove ''hidden'' (classList (hide_pages (elements p) ! t))\<rparr>]) ! i)))"
    if "i < length (elements p)" for i
  proof (cases "i = t")
    case True
    with t np show ?thesis by (simp add: classList_remove_def)
  next
    case False
    with that show ?thesis by (simp add: hidden_hide_pages)
  qed
  then show ?thesis
    by (simp add: navigateTo_Some [OF Some] visible_pages_def filter_empty_conv)
qed

lemma navigateTo_page:
  assumes "getElementById (elements p) pageId = Some t"
    and "''page'' \<in> set (classList (elements p ! t))"
  shows "visible_pages (navigateTo pageId p) = [t]"
proof -
  define els where "els = (hide_pages (elements p))
               [t := (hide_pages (elements p) ! t)
                  \<lparr>classList := classList_remove ''hidden'' (classList (hide_pages (elements p) ! t))\<rparr>]"
  have t: "t < length (elements p)"
    using getElementById_Some [OF assms(1)] by simp
  have len: "length els = length (elements p)"
    by (simp add: els_def)
  have "(''page'' \<in> set (classList (els ! i)) \<and> ''hidden'' \<notin> set (classList (els ! i))) \<longleftrightarrow> i = t"
    if "i < length (elements p)" for i
  proof (cases "i = t")
    case True
    with t assms(2) show ?thesis
      by (simp add: els_def classList_remove_def)
  next
    case False
    with that show ?thesis
      by (auto simp: els_def hidden_hide_pages)
  qed
  then have "filter (\<lambda>i. ''page'' \<in> set (classList (els ! i)) \<and> ''hidden'' \<notin> set (classList (els ! i)))
               [0..<length (elements p)] = [t]"
    using t by (intro filter_upt_single) simp_all
  then show ?thesis
    by (simp add: navigateTo_Some [OF assms(1)] visible_pages_def len flip: els_def)
qed

lemma navigateTo_frame:
  "navigateTo pageId p =
     p\<lparr>elements := elements (navigateTo pageId p), navigation := navigation (navigateTo pageId p)\<rparr>"
  by (cases "getElementById (hide_pages (elements p)) pageId")
     (simp_all add: navigateTo_def updateNavIndicator_def Let_def)


lemma navigateTo_fields [simp]:
  "bodyClasses (navigateTo s p) = bodyClasses p"
  "contentDisplay (navigateTo s p) = contentDisplay p"
  "resultContent (navigateTo s p) = resultContent p"
  "analyzeDisabled (navigateTo s p) = analyzeDisabled p"
  "btnText (navigateTo s p) = btnText p"
  "spinnerHidden (navigateTo s p) = spinnerHidden p"
  "navButton (navigateTo s p) = navButton p"
  "console (navigateTo s p) = console p"
  "requests (navigateTo s p) = requests p"
  "timers (navigateTo s p) = timers p"
  "awaiting (navigateTo s p) = awaiting p"
  "frames (navigateTo s p) = frames p"
  by (subst navigateTo_frame, simp)+

lemma displayContentForPreview_elements [simp]:
  "elements (displayContentForPreview c p) = elements p"
  "bodyClasses (displayContentForPreview c p) = bodyClasses p"
  by (simp_all add: displayContentForPreview_def)

lemma classList_remove_absent [simp]: "c \<notin> set (classList_remove c cs)"
  by (simp add: classList_remove_def)


section \<open>The analyze handler and the storage listener: auxiliary facts\<close>

lemma click_state:
  assumes "\<not> no_value (contentToAnalyze (contentDisplay p))" and "\<not> analyzeDisabled p"
  shows "timers (step strtod p Click) = Suc (timers p)"
    "awaiting (step strtod p Click) = Suc (awaiting p)"
    "navButton (step strtod p Click) = navButton p"
    "analyzeDisabled (step strtod p Click)"
  using assms by (simp_all add: step_def analyzeBtn_click_def Let_def)

lemma stale_placeholder:
  assumes "\<not> no_value (contentToAnalyze (contentDisplay p))" and "\<not> analyzeDisabled p"
  shows "resultContent (run_events strtod p [Click, Settled outcome, Timeout]) = Analyzing \<and>
         navButton (run_events strtod p [Click, Settled outcome, Timeout]) = map_option (\<lambda>_. ''none'') (navButton p) \<and>
         \<not> analyzeDisabled (run_events strtod p [Click, Settled outcome, Timeout])"
proof -
  let ?p1 = "step strtod p Click"
  let ?p2 = "step strtod ?p1 (Settled outcome)"
  have p2: "timers ?p2 = Suc (timers p)" "\<not> analyzeDisabled ?p2"
       "navButton ?p2 = navButton p \<or> navButton ?p2 = map_option (\<lambda>_. ''inline-flex'') (navButton p)"
    using click_state [OF assms, of strtod]
    by (auto simp: step_def [of _ _ "Settled outcome"] fetch_settled_def Let_def split: sum.splits)
  then show ?thesis
    by (auto simp: run_events_def step_def [of _ _ Timeout] placeholder_timeout_def option.map_comp comp_def)
qed

lemma error_after_placeholder:
  assumes "\<not> no_value (contentToAnalyze (contentDisplay p))" and "\<not> analyzeDisabled p"
    and "try_block strtod outcome = Inl err"
  shows "resultContent (run_events strtod p [Click, Timeout, Settled outcome]) = Failed err \<and>
         navButton (run_events strtod p [Click, Timeout, Settled outcome]) =
           map_option (\<lambda>_. ''inline-flex'') (navButton p) \<and>
         \<not> analyzeDisabled (run_events strtod p [Click, Timeout, Settled outcome])"
proof -
  let ?p1 = "step strtod p Click"
  let ?p2 = "step strtod ?p1 Timeout"
  have p2: "awaiting ?p2 = Suc (awaiting p)" "navButton ?p2 = map_option (\<lambda>_. ''none'') (navButton p)"
    using click_state [OF assms(1,2), of strtod]
    by (simp_all add: step_def [of _ _ Timeout] placeholder_timeout_def)
  then show ?thesis
    using assms(3)
    by (simp add: run_events_def step_def [of _ _ "Settled outcome"] fetch_settled_def
        option.map_comp comp_def)
qed

lemma storage_onChanged_new:
  assumes "getElementById (elements p) ''page-preview'' = Some t"
    and "''page'' \<in> set (classList (elements p ! t))"
  shows "\<exists>p'. (\<forall>old. storage_onChanged
                      [''contentToAnalyze'' \<mapsto> \<lparr>oldValue = old, newValue = Some c\<rparr>] ''local'' p
                    = (p', [StorageRemove ''contentToAnalyze''])) \<and>
              visible_pages p' = [t] \<and>
              ''selection-mode-active'' \<notin> set (bodyClasses p') \<and>
              contentDisplay p' = contentDisplay (displayContentForPreview c p) \<and>
              (\<forall>old. storage_onChanged
                      [''contentToAnalyze'' \<mapsto> \<lparr>oldValue = old, newValue = None\<rparr>] ''local'' p'
                    = (p', []))"
  using assms
  by (simp add: storage_onChanged_def navigateTo_page) (simp add: displayContentForPreview_def)


section \<open>Rounding to a double: auxiliary facts\<close>

lemma rhe_lower: "\<lfloor>q\<rfloor> \<le> round_half_even q"
  by (simp add: round_half_even_def Let_def)

lemma rhe_upper: "round_half_even q \<le> \<lceil>q\<rceil>"
proof (cases "q = of_int \<lfloor>q\<rfloor>")
  case True
  then have "round_half_even q = \<lfloor>q\<rfloor>"
    by (simp add: round_half_even_def Let_def)
  then show ?thesis
    by (simp add: floor_le_ceiling)
next
  case False
  then have "\<lceil>q\<rceil> = \<lfloor>q\<rfloor> + 1"
    by (metis ceiling_altdef)
  then show ?thesis
    by (simp add: round_half_even_def Let_def)
qed

lemma rhe_ge: "of_int M \<le> q \<Longrightarrow> M \<le> round_half_even q"
  using rhe_lower [of q] le_floor_iff [of M q] by linarith

lemma rhe_le: "q \<le> of_int M \<Longrightarrow> round_half_even q \<le> M"
  using rhe_upper [of q] ceiling_le_iff [of q M] by linarith

lemma rhe_eqI:
  assumes "of_int n - 1 / 2 < q" and "q < of_int n + 1 / 2"
  shows "round_half_even q = n"
proof (cases "of_int n \<le> q")
  case True
  with assms have "\<lfloor>q\<rfloor> = n"
    by (intro floor_unique) linarith+
  with assms show ?thesis
    by (simp add: round_half_even_def Let_def)
next
  case False
  with assms have "of_int (n - 1) \<le> q" "q < of_int (n - 1) + 1"
    by simp_all
  then have "\<lfloor>q\<rfloor> = n - 1"
    by (rule floor_unique)
  with assms False show ?thesis
    by (simp add: round_half_even_def Let_def)
qed

lemma rhe_error: "\<bar>of_int (round_half_even q) - q\<bar> \<le> 1 / 2"
proof -
  have "of_int \<lfloor>q\<rfloor> \<le> q" "q < of_int \<lfloor>q\<rfloor> + 1"
    by linarith+
  then show ?thesis
    by (auto simp: round_half_even_def Let_def)
qed

lemma exponent_ge: "- 1074 \<le> exponent x"
  by (simp add: exponent_def)

lemma exponent_upper:
  assumes "x \<noteq> 0"
  shows "\<bar>x\<bar> < 2 powr (exponent x + 53)"
proof -
  have "log 2 \<bar>x\<bar> < of_int \<lfloor>log 2 \<bar>x\<bar>\<rfloor> + 1"
    by linarith
  also have "\<dots> \<le> of_int (exponent x + 53)"
    by (simp add: exponent_def)
  finally have "log 2 \<bar>x\<bar> < of_int (exponent x + 53)" .
  with assms show ?thesis
    by (simp add: log_less_iff)
qed

lemma exponent_eq:
  assumes "2 powr k \<le> \<bar>x\<bar>" and "\<bar>x\<bar> < 2 powr (k + 1)" and "- 1022 \<le> k"
  shows "exponent x = k - 52"
proof -
  have "0 < \<bar>x\<bar>"
    using assms(1) by (smt (verit) powr_gt_zero)
  then have "\<lfloor>log 2 \<bar>x\<bar>\<rfloor> = k"
    using assms(1,2) by (subst floor_log_eq_powr_iff) simp_all
  with assms(3) show ?thesis
    by (simp add: exponent_def)
qed

lemma exponent_le:
  assumes "x \<noteq> 0" and "\<bar>x\<bar> < 2 powr (k + 1)" and "- 1022 \<le> k"
  shows "exponent x \<le> k - 52"
proof -
  have "log 2 \<bar>x\<bar> < of_int (k + 1)"
    using assms(1,2) by (simp add: log_less_iff)
  moreover have "of_int \<lfloor>log 2 \<bar>x\<bar>\<rfloor> \<le> log 2 \<bar>x\<bar>"
    by simp
  ultimately have "(of_int \<lfloor>log 2 \<bar>x\<bar>\<rfloor> :: real) < of_int (k + 1)"
    by linarith
  then have "\<lfloor>log 2 \<bar>x\<bar>\<rfloor> < k + 1"
    by (simp only: of_int_less_iff)
  with assms(3) show ?thesis
    by (simp add: exponent_def)
qed

lemma exponent_lower:
  assumes "x \<noteq> 0" and "- 1074 < exponent x"
  shows "2 powr (exponent x + 52) \<le> \<bar>x\<bar>"
proof -
  from assms(2) have "exponent x + 52 = \<lfloor>log 2 \<bar>x\<bar>\<rfloor>"
    by (simp add: exponent_def max_def split: if_splits)
  then have "of_int (exponent x + 52) \<le> log 2 \<bar>x\<bar>"
    by simp
  with assms(1) show ?thesis
    by (simp add: le_log_iff)
qed

text \<open>The quotient that is rounded has magnitude below 2 to the 53.\<close>

lemma quotient_bound:
  assumes "x \<noteq> 0"
  shows "\<bar>x / 2 powr exponent x\<bar> < 2 ^ 53"
proof -
  have "\<bar>x\<bar> < 2 powr (exponent x + 53)"
    using assms by (rule exponent_upper)
  also have "\<dots> = 2 powr exponent x * 2 ^ 53"
    by (simp add: powr_add)
  finally show ?thesis
    by (simp add: abs_divide pos_divide_less_eq mult.commute)
qed

lemma rhe_abs_le:
  assumes "\<bar>q\<bar> \<le> of_int M"
  shows "\<bar>round_half_even q\<bar> \<le> M"
proof -
  from assms have "q \<le> of_int M" "of_int (- M) \<le> q"
    by simp_all
  then have "round_half_even q \<le> M" "- M \<le> round_half_even q"
    using rhe_le [of q M] rhe_ge [of "- M" q] by simp_all
  then show ?thesis
    by simp
qed

lemma to_double_finite:
  assumes "x \<noteq> 0" and "exponent x \<le> 970"
  shows "to_double x = Fin (of_int (round_half_even (x / 2 powr exponent x)) * 2 powr exponent x)"
proof -
  have "\<bar>round_half_even (x / 2 powr exponent x)\<bar> \<le> 2 ^ 53"
    using quotient_bound [OF assms(1)] rhe_abs_le [of "x / 2 powr exponent x" "2 ^ 53"] by simp
  then have "\<bar>of_int (round_half_even (x / 2 powr exponent x))\<bar> \<le> (2 ^ 53 :: real)"
    by (metis of_int_abs of_int_le_iff of_int_numeral of_int_power)
  then have "\<bar>of_int (round_half_even (x / 2 powr exponent x)) * 2 powr exponent x\<bar>
               \<le> 2 ^ 53 * 2 powr exponent x"
    by (simp add: abs_mult mult_right_mono)
  also have "\<dots> = 2 powr (exponent x + 53)"
    by (simp add: powr_add)
  also have "\<dots> \<le> 2 powr 1023"
    using assms(2) by (intro powr_mono) simp_all
  also have "\<dots> < 2 powr 1024"
    by (intro powr_less_mono) simp_all
  finally have "\<not> 2 powr 1024 \<le>
      \<bar>of_int (round_half_even (x / 2 powr exponent x)) * 2 powr exponent x\<bar>"
    by linarith
  then show ?thesis
    using assms(1) unfolding to_double_def Let_def by (simp only: if_False)
qed

lemma to_double_eqI:
  assumes "2 powr of_int k \<le> \<bar>x\<bar>" and "\<bar>x\<bar> < 2 powr of_int (k + 1)"
    and "- 1022 \<le> k" and "k \<le> 1022"
    and "of_int n - 1 / 2 < x / 2 powr of_int (k - 52)"
    and "x / 2 powr of_int (k - 52) < of_int n + 1 / 2"
  shows "to_double x = Fin (of_int n * 2 powr of_int (k - 52))"
proof -
  have e: "exponent x = k - 52"
    using assms(1-3) by (rule exponent_eq)
  have "x \<noteq> 0"
    using assms(1) by (smt (verit) powr_gt_zero)
  moreover have "exponent x \<le> 970"
    using e assms(4) by simp
  ultimately have "to_double x =
      Fin (of_int (round_half_even (x / 2 powr exponent x)) * 2 powr exponent x)"
    by (rule to_double_finite)
  moreover have "round_half_even (x / 2 powr of_int (k - 52)) = n"
    using assms(5,6) by (rule rhe_eqI)
  ultimately show ?thesis
    by (simp add: e)
qed

lemma two_powr_int: "0 \<le> a \<Longrightarrow> 2 powr of_int a = (2::real) ^ nat a"
proof -
  assume "0 \<le> a"
  then have "(of_int a :: real) = real (nat a)"
    by simp
  then show ?thesis
    by (simp only: powr_realpow zero_less_numeral)
qed

lemma to_double_small:
  assumes "\<bar>x\<bar> < 2 ^ 53" and "x \<noteq> 0"
  shows "exponent x \<le> 0"
    and "to_double x = Fin (of_int (round_half_even (x / 2 powr exponent x)) * 2 powr exponent x)"
proof -
  have "\<bar>x\<bar> < 2 powr of_int (52 + 1)"
    using assms(1) by simp
  with assms(2) have "exponent x \<le> 52 - 52"
    by (intro exponent_le) simp_all
  then show "exponent x \<le> 0"
    by simp
  then show "to_double x = Fin (of_int (round_half_even (x / 2 powr exponent x)) * 2 powr exponent x)"
    using to_double_finite [OF assms(2)] by simp
qed

text \<open>Rounding does not cross a value of the grid: sign and dyadic bounds are kept.\<close>

lemma to_double_ge_grid:
  assumes "of_int M * 2 powr exponent x \<le> x"
  shows "of_int M * 2 powr exponent x
           \<le> of_int (round_half_even (x / 2 powr exponent x)) * 2 powr exponent x"
proof -
  have "of_int M \<le> x / 2 powr exponent x"
    using assms by (simp add: pos_le_divide_eq)
  then have "M \<le> round_half_even (x / 2 powr exponent x)"
    by (rule rhe_ge)
  then show ?thesis
    by simp
qed

lemma to_double_le_grid:
  assumes "x \<le> of_int M * 2 powr exponent x"
  shows "of_int (round_half_even (x / 2 powr exponent x)) * 2 powr exponent x
           \<le> of_int M * 2 powr exponent x"
proof -
  have "x / 2 powr exponent x \<le> of_int M"
    using assms by (simp add: pos_divide_le_eq)
  then have "round_half_even (x / 2 powr exponent x) \<le> M"
    by (rule rhe_le)
  then show ?thesis
    by simp
qed

lemma dyadic_on_grid:
  assumes "e \<le> - int j"
  shows "of_int (N * 2 ^ nat (- e - int j)) * 2 powr of_int e = (of_int N / 2 ^ j :: real)"
proof -
  have "(2::real) powr of_int (- e - int j) * 2 powr of_int e = 2 powr (- real j)"
    by (simp flip: powr_add)
  also have "\<dots> = 1 / 2 ^ j"
    by (simp only: powr_minus powr_realpow zero_less_numeral inverse_eq_divide)
  finally have "(2::real) powr of_int (- e - int j) * 2 powr of_int e = 1 / 2 ^ j" .
  moreover have "2 powr of_int (- e - int j) = (2::real) ^ nat (- e - int j)"
    using assms by (intro two_powr_int) simp
  ultimately have "(2::real) ^ nat (- e - int j) * 2 powr of_int e = 1 / 2 ^ j"
    by simp
  then have "of_int N * ((2::real) ^ nat (- e - int j) * 2 powr of_int e) = of_int N * (1 / 2 ^ j)"
    by (rule arg_cong)
  then show ?thesis
    by (simp add: mult.assoc)
qed

lemma dyadic_exponent:
  assumes "\<bar>x\<bar> < 2 ^ (53 - j)" and "j \<le> 53" and "x \<noteq> 0"
  shows "exponent x \<le> - int j" and "\<bar>x\<bar> < 2 ^ 53"
proof -
  have "52 - int j + 1 = int (53 - j)"
    using assms(2) by simp
  then have "2 powr of_int (52 - int j + 1) = (2::real) ^ (53 - j)"
    by (simp only: of_int_of_nat_eq powr_realpow zero_less_numeral)
  with assms(1) have "\<bar>x\<bar> < 2 powr of_int (52 - int j + 1)"
    by simp
  with assms(3) have "exponent x \<le> 52 - int j - 52"
    using assms(2) by (intro exponent_le) simp_all
  then show "exponent x \<le> - int j"
    by simp
  have "(2::real) ^ (53 - j) \<le> 2 ^ 53"
    by (intro power_increasing) simp_all
  with assms(1) show "\<bar>x\<bar> < 2 ^ 53"
    by linarith
qed

lemma to_double_ge_dyadic:
  assumes "of_int N / 2 ^ j \<le> x" and "\<bar>x\<bar> < 2 ^ (53 - j)" and "j \<le> 53"
  shows "\<exists>v. to_double x = Fin v \<and> of_int N / 2 ^ j \<le> v"
proof (cases "x = 0")
  case True
  with assms(1) show ?thesis
    by (simp add: to_double_def)
next
  case False
  note e = dyadic_exponent [OF assms(2,3) False]
  note g = dyadic_on_grid [OF e(1), of N]
  have "of_int (N * 2 ^ nat (- exponent x - int j)) * 2 powr of_int (exponent x) \<le> x"
    using assms(1) by (simp only: g)
  then have "of_int (N * 2 ^ nat (- exponent x - int j)) * 2 powr of_int (exponent x)
      \<le> of_int (round_half_even (x / 2 powr exponent x)) * 2 powr exponent x"
    by (rule to_double_ge_grid)
  then have "of_int N / 2 ^ j
      \<le> of_int (round_half_even (x / 2 powr exponent x)) * 2 powr exponent x"
    by (simp only: g)
  with to_double_small(2) [OF e(2) False] show ?thesis
    by blast
qed

lemma to_double_le_dyadic:
  assumes "x \<le> of_int N / 2 ^ j" and "\<bar>x\<bar> < 2 ^ (53 - j)" and "j \<le> 53"
  shows "\<exists>v. to_double x = Fin v \<and> v \<le> of_int N / 2 ^ j"
proof (cases "x = 0")
  case True
  with assms(1) show ?thesis
    by (simp add: to_double_def)
next
  case False
  note e = dyadic_exponent [OF assms(2,3) False]
  note g = dyadic_on_grid [OF e(1), of N]
  have "x \<le> of_int (N * 2 ^ nat (- exponent x - int j)) * 2 powr of_int (exponent x)"
    using assms(1) by (simp only: g)
  then have "of_int (round_half_even (x / 2 powr exponent x)) * 2 powr exponent x
      \<le> of_int (N * 2 ^ nat (- exponent x - int j)) * 2 powr of_int (exponent x)"
    by (rule to_double_le_grid)
  then have "of_int (round_half_even (x / 2 powr exponent x)) * 2 powr exponent x
      \<le> of_int N / 2 ^ j"
    by (simp only: g)
  with to_double_small(2) [OF e(2) False] show ?thesis
    by blast
qed

lemma to_double_between:
  assumes "of_int L / 2 ^ j \<le> x" and "x \<le> of_int U / 2 ^ j"
    and "\<bar>x\<bar> < 2 ^ (53 - j)" and "j \<le> 53"
  shows "\<exists>v. to_double x = Fin v \<and> of_int L / 2 ^ j \<le> v \<and> v \<le> of_int U / 2 ^ j"
proof -
  from to_double_ge_dyadic [OF assms(1,3,4)] obtain v
    where v: "to_double x = Fin v" "of_int L / 2 ^ j \<le> v"
    by blast
  from to_double_le_dyadic [OF assms(2,3,4)] obtain w
    where w: "to_double x = Fin w" "w \<le> of_int U / 2 ^ j"
    by blast
  from v(1) w(1) have "v = w"
    by simp
  with v w(2) show ?thesis
    by blast
qed

text \<open>The rounding error is at most half a unit in the last place.\<close>

lemma to_double_error:
  assumes "\<bar>x\<bar> < 2 ^ (53 - j)" and "j \<le> 53"
  shows "\<exists>v. to_double x = Fin v \<and> x - 1 / 2 ^ Suc j \<le> v \<and> v \<le> x + 1 / 2 ^ Suc j"
proof (cases "x = 0")
  case True
  then show ?thesis
    by (simp add: to_double_def)
next
  case False
  note e = dyadic_exponent [OF assms False]
  define q where "q = x / 2 powr exponent x"
  have x: "x = q * 2 powr exponent x"
    by (simp add: q_def)
  have "\<bar>of_int (round_half_even q) * 2 powr exponent x - x\<bar>
      = \<bar>of_int (round_half_even q) - q\<bar> * 2 powr exponent x"
    by (subst x) (simp add: abs_mult flip: left_diff_distrib)
  also have "\<dots> \<le> 1 / 2 * 2 powr exponent x"
    by (intro mult_right_mono rhe_error) simp
  also have "2 powr of_int (exponent x) \<le> (2::real) powr (- real j)"
    using e(1) by (intro powr_mono) simp_all
  then have "1 / 2 * 2 powr exponent x \<le> 1 / 2 * (2::real) powr (- real j)"
    by simp
  also have "(2::real) powr (- real j) = 1 / 2 ^ j"
    by (simp only: powr_minus powr_realpow zero_less_numeral inverse_eq_divide)
  finally have "\<bar>of_int (round_half_even q) * 2 powr exponent x - x\<bar> \<le> 1 / 2 ^ Suc j"
    by simp
  then have "x - 1 / 2 ^ Suc j \<le> of_int (round_half_even q) * 2 powr exponent x \<and>
      of_int (round_half_even q) * 2 powr exponent x \<le> x + 1 / 2 ^ Suc j"
    by (simp only: abs_diff_le_iff)
  with to_double_small(2) [OF e(2) False] show ?thesis
    unfolding q_def by blast
qed

text \<open>Signs, and the smallest positive double.\<close>

lemma to_double_not_NaN [simp]: "to_double x \<noteq> NaN"
  by (simp add: to_double_def Let_def)

lemma to_double_nonneg:
  assumes "0 \<le> x"
  shows "to_double x \<noteq> NegInf" and "to_double x = Fin v \<Longrightarrow> 0 \<le> v"
proof -
  show "to_double x \<noteq> NegInf"
    using assms by (simp add: to_double_def Let_def)
  assume v: "to_double x = Fin v"
  have "of_int 0 \<le> x / 2 powr exponent x"
    using assms by simp
  then have "0 \<le> round_half_even (x / 2 powr exponent x)"
    by (rule rhe_ge)
  then have "0 \<le> of_int (round_half_even (x / 2 powr exponent x)) * 2 powr exponent x"
    by simp
  with v show "0 \<le> v"
    by (auto simp: to_double_def Let_def split: if_splits)
qed

lemma to_double_nonpos:
  assumes "x \<le> 0"
  shows "to_double x \<noteq> PosInf" and "to_double x = Fin v \<Longrightarrow> v \<le> 0"
proof -
  show "to_double x \<noteq> PosInf"
    using assms by (simp add: to_double_def Let_def)
  assume v: "to_double x = Fin v"
  have "x / 2 powr exponent x \<le> of_int 0"
    using assms by (simp add: divide_nonpos_pos)
  then have "round_half_even (x / 2 powr exponent x) \<le> 0"
    by (rule rhe_le)
  then have "of_int (round_half_even (x / 2 powr exponent x)) * 2 powr exponent x \<le> 0"
    by (simp add: mult_nonpos_nonneg)
  with v show "v \<le> 0"
    by (auto simp: to_double_def Let_def split: if_splits)
qed

lemma to_double_ge_least:
  assumes "2 powr (- 1074) \<le> x" and "to_double x = Fin v"
  shows "2 powr (- 1074) \<le> v"
proof -
  have pos: "0 < x"
    using assms(1) by (smt (verit) powr_gt_zero)
  have "2 powr of_int (exponent x) \<le> x"
  proof (cases "- 1074 < exponent x")
    case True
    with pos have "2 powr of_int (exponent x + 52) \<le> x"
      using exponent_lower [of x] by simp
    moreover have "2 powr of_int (exponent x) \<le> (2::real) powr of_int (exponent x + 52)"
      by (intro powr_mono) simp_all
    ultimately show ?thesis
      by linarith
  next
    case False
    with exponent_ge [of x] have "exponent x = - 1074"
      by simp
    with assms(1) show ?thesis
      by simp
  qed
  then have "of_int 1 \<le> x / 2 powr exponent x"
    by (simp add: pos_le_divide_eq)
  then have "1 \<le> round_half_even (x / 2 powr exponent x)"
    by (rule rhe_ge)
  then have "(1::real) \<le> of_int (round_half_even (x / 2 powr exponent x))"
    by simp
  then have "1 * 2 powr of_int (exponent x)
      \<le> of_int (round_half_even (x / 2 powr exponent x)) * 2 powr exponent x"
    by (intro mult_right_mono) simp_all
  moreover have "(2::real) powr (- 1074) \<le> 2 powr of_int (exponent x)"
    using exponent_ge [of x] by (intro powr_mono) simp_all
  ultimately have "2 powr (- 1074)
      \<le> of_int (round_half_even (x / 2 powr exponent x)) * 2 powr exponent x"
    by linarith
  with assms(2) pos show ?thesis
    by (auto simp: to_double_def Let_def split: if_splits)
qed

lemma to_double_pos_least:
  assumes "to_double x = Fin v" and "0 < v"
  shows "2 powr (- 1074) \<le> v"
proof -
  have x: "x \<noteq> 0"
    using assms by (auto simp: to_double_def)
  with assms(1) have v: "v = of_int (round_half_even (x / 2 powr exponent x)) * 2 powr exponent x"
    by (auto simp: to_double_def Let_def split: if_splits)
  with assms(2) have "0 < round_half_even (x / 2 powr exponent x)"
    by (simp add: zero_less_mult_iff)
  then have "(1::real) \<le> of_int (round_half_even (x / 2 powr exponent x))"
    by simp
  then have "1 * 2 powr of_int (exponent x)
      \<le> of_int (round_half_even (x / 2 powr exponent x)) * 2 powr exponent x"
    by (intro mult_right_mono) simp_all
  moreover have "(2::real) powr (- 1074) \<le> 2 powr of_int (exponent x)"
    using exponent_ge [of x] by (intro powr_mono) simp_all
  ultimately show ?thesis
    using v by linarith
qed

lemma to_double_abs_le_1:
  assumes "\<bar>x\<bar> \<le> 1"
  shows "\<exists>v. to_double x = Fin v \<and> - 1 \<le> v \<and> v \<le> 1"
  using to_double_between [of "- 1" 0 x 1] assms by simp

section \<open>Some doubles\<close>

text \<open>
  The doubles of the decimal literals that the results below compute on, each given by
  its integer significand and its power of two, and the rounded quotients and products
  that the ceiling computation forms from them. The quotient of the doubles 0.07 and
  0.01 is not 7 but the double above it.
\<close>

lemma to_double_tenth: "to_double (1 / 10) = Fin (7205759403792794 / 2 ^ 56)"
  using to_double_eqI [of "- 4" "1 / 10" 7205759403792794]
  by (simp add: powr_minus)

lemma to_double_twentieth: "to_double (1 / 20) = Fin (7205759403792794 / 2 ^ 57)"
  using to_double_eqI [of "- 5" "1 / 20" 7205759403792794]
  by (simp add: powr_minus)

lemma to_double_hundredth: "to_double (1 / 100) = Fin (5764607523034235 / 2 ^ 59)"
  using to_double_eqI [of "- 7" "1 / 100" 5764607523034235]
  by (simp add: powr_minus)

lemma to_double_7_hundredths: "to_double (7 / 100) = Fin (5044031582654956 / 2 ^ 56)"
  using to_double_eqI [of "- 4" "7 / 100" 5044031582654956]
  by (simp add: powr_minus)

lemma to_double_8_hundredths: "to_double (8 / 100) = Fin (5764607523034235 / 2 ^ 56)"
  using to_double_eqI [of "- 4" "8 / 100" 5764607523034235]
  by (simp add: powr_minus)

lemma to_double_15_hundredths: "to_double (15 / 100) = Fin (5404319552844595 / 2 ^ 55)"
  using to_double_eqI [of "- 3" "15 / 100" 5404319552844595] by (simp add: powr_minus)

lemma to_double_minus_15_hundredths:
  "to_double (- (15 / 100)) = Fin (- (5404319552844595 / 2 ^ 55))"
  using to_double_eqI [of "- 3" "- (15 / 100)" "- 5404319552844595"] by (simp add: powr_minus)

lemma to_double_2_hundredths: "to_double (2 / 100) = Fin (5764607523034235 / 2 ^ 58)"
  using to_double_eqI [of "- 6" "2 / 100" 5764607523034235] by (simp add: powr_minus)

lemma to_double_minus_twentieth:
  "to_double (- (5 / 100)) = Fin (- (7205759403792794 / 2 ^ 57))"
  using to_double_eqI [of "- 5" "- (5 / 100)" "- 7205759403792794"] by (simp add: powr_minus)

lemma to_double_20: "to_double 20 = Fin 20"
  using to_double_eqI [of 4 20 "20 * 2 ^ 48"]
  by (simp add: powr_minus)

lemma quotient_5: "to_double ((7205759403792794 / 2 ^ 57) / (5764607523034235 / 2 ^ 59)) = Fin 5"
  using to_double_eqI [of 2 "(7205759403792794 / 2 ^ 57) / (5764607523034235 / 2 ^ 59)" "5 * 2 ^ 50"]
  by (simp add: powr_minus)

lemma product_5: "to_double (5 * (5764607523034235 / 2 ^ 59)) = Fin (7205759403792794 / 2 ^ 57)"
  using to_double_eqI [of "- 5" "5 * (5764607523034235 / 2 ^ 59)" 7205759403792794]
  by (simp add: powr_minus)

lemma quotient_7:
  "to_double ((5044031582654956 / 2 ^ 56) / (5764607523034235 / 2 ^ 59)) = Fin (7881299347898369 / 2 ^ 50)"
  using to_double_eqI [of 2 "(5044031582654956 / 2 ^ 56) / (5764607523034235 / 2 ^ 59)" 7881299347898369]
  by (simp add: powr_minus)

lemma product_8: "to_double (8 * (5764607523034235 / 2 ^ 59)) = Fin (5764607523034235 / 2 ^ 56)"
  using to_double_eqI [of "- 4" "8 * (5764607523034235 / 2 ^ 59)" 5764607523034235]
  by (simp add: powr_minus)





text \<open>The least positive double.\<close>

lemma least_pos: "0 < (2::real) powr (- 1074)"
  by (subst powr_gt_zero) simp

lemma least_le_small: "2 powr (- 1074) \<le> (1 / 2 ^ 60 :: real)"
proof -
  have "(2::real) powr (- 1074) \<le> 2 powr (- 60)"
    by (intro powr_mono) simp_all
  also have "(2::real) powr (- 60) = 1 / 2 ^ 60"
    by (simp add: powr_minus_divide)
  finally show ?thesis .
qed

section \<open>The axis ceiling: auxiliary facts\<close>

text \<open>
  The decimal logarithms of the doubles 0.05 and 0.07 lie between -2 and -1, and so do
  their doubles; the magnitude of both scores is the double 0.01.
\<close>

lemma log10_twentieth:
  "\<exists>v. to_double (log 10 (7205759403792794 / 2 ^ 57)) = Fin v \<and> - 2 \<le> v \<and> v \<le> - (5 / 4)"
proof -
  have lo: "- 2 \<le> log 10 (7205759403792794 / 2 ^ 57)"
    by (subst le_log_iff) (simp_all add: powr_minus)
  have "4 * log 10 (7205759403792794 / 2 ^ 57) = log 10 ((7205759403792794 / 2 ^ 57) ^ 4)"
    by (simp add: log_nat_power)
  also have "\<dots> \<le> - 5"
    by (subst log_le_iff) (simp_all add: powr_minus power_divide)
  finally have hi: "log 10 (7205759403792794 / 2 ^ 57) \<le> - (5 / 4)"
    by simp
  from lo hi to_double_between [of "- 8" 2 "log 10 (7205759403792794 / 2 ^ 57)" "- 5"]
  show ?thesis
    by simp
qed

lemma log10_7_hundredths:
  "\<exists>v. to_double (log 10 (5044031582654956 / 2 ^ 56)) = Fin v \<and> - 2 \<le> v \<and> v \<le> - (9 / 8)"
proof -
  have lo: "- 2 \<le> log 10 (5044031582654956 / 2 ^ 56)"
    by (subst le_log_iff) (simp_all add: powr_minus)
  have "8 * log 10 (5044031582654956 / 2 ^ 56) = log 10 ((5044031582654956 / 2 ^ 56) ^ 8)"
    by (simp add: log_nat_power)
  also have "\<dots> \<le> - 9"
    by (subst log_le_iff) (simp_all add: powr_minus power_divide)
  finally have hi: "log 10 (5044031582654956 / 2 ^ 56) \<le> - (9 / 8)"
    by simp
  from lo hi to_double_between [of "- 16" 3 "log 10 (5044031582654956 / 2 ^ 56)" "- 9"]
  show ?thesis
    by simp
qed

lemma magnitude_twentieth: "magnitude (Fin (7205759403792794 / 2 ^ 57)) = Fin (5764607523034235 / 2 ^ 59)"
proof -
  from log10_twentieth obtain v
    where v: "to_double (log 10 (7205759403792794 / 2 ^ 57)) = Fin v" "- 2 \<le> v" "v \<le> - (5 / 4)"
    by blast
  from v(2,3) have "\<lfloor>v\<rfloor> = - 2"
    by (intro floor_unique) simp_all
  with v(1) have "Math_floor (Math_log10 (Fin (7205759403792794 / 2 ^ 57))) = Fin (- 2)"
    by simp
  then show ?thesis
    by (simp add: magnitude_def powr_minus to_double_hundredth)
qed

lemma magnitude_7_hundredths: "magnitude (Fin (5044031582654956 / 2 ^ 56)) = Fin (5764607523034235 / 2 ^ 59)"
proof -
  from log10_7_hundredths obtain v
    where v: "to_double (log 10 (5044031582654956 / 2 ^ 56)) = Fin v" "- 2 \<le> v" "v \<le> - (9 / 8)"
    by blast
  from v(2,3) have "\<lfloor>v\<rfloor> = - 2"
    by (intro floor_unique) simp_all
  with v(1) have "Math_floor (Math_log10 (Fin (5044031582654956 / 2 ^ 56))) = Fin (- 2)"
    by simp
  then show ?thesis
    by (simp add: magnitude_def powr_minus to_double_hundredth)
qed

lemma chartMax_twentieth: "chartMax [to_double (5 / 100)] = to_double (5 / 100)"
proof -
  define m :: real where "m = 7205759403792794 / 2 ^ 57"
  define g :: real where "g = 5764607523034235 / 2 ^ 59"
  have m: "to_double (5 / 100) = Fin m" "0 < m"
    using to_double_twentieth by (simp_all add: m_def)
  have small: "\<not> js_gt (Fin m) (to_double (1 / 10))"
    by (simp add: to_double_tenth m_def)
  have mag: "magnitude (Fin m) = Fin g"
    unfolding m_def g_def by (rule magnitude_twentieth)
  have q: "js_div (Fin m) (Fin g) = Fin 5"
    using quotient_5 by (simp add: m_def g_def)
  have p: "js_mul (Fin 5) (Fin g) = Fin m"
    using product_5 by (simp add: m_def g_def)
  have "Math_max (map Math_abs [Fin m]) = Fin m"
    using m(2) by (simp add: Math_max_def)
  moreover have ceil: "Math_ceil (Fin 5) = Fin 5"
    by simp
  moreover have "m \<noteq> 0"
    using m(2) by simp
  ultimately have "chartMax [Fin m] = Fin m"
    using small by (simp only: chartMax_def Let_def mag q ceil p if_False js_strict_eq.simps jsnum.inject)
  then show ?thesis
    by (simp only: m(1))
qed

lemma chartMax_7_hundredths: "chartMax [to_double (7 / 100)] = to_double (8 / 100)"
proof -
  define m :: real where "m = 5044031582654956 / 2 ^ 56"
  define g :: real where "g = 5764607523034235 / 2 ^ 59"
  define c :: real where "c = 5764607523034235 / 2 ^ 56"
  have m: "to_double (7 / 100) = Fin m" "0 < m"
    using to_double_7_hundredths by (simp_all add: m_def)
  have c: "to_double (8 / 100) = Fin c" "c \<noteq> 0"
    using to_double_8_hundredths by (simp_all add: c_def)
  have small: "\<not> js_gt (Fin m) (to_double (1 / 10))"
    by (simp add: to_double_tenth m_def)
  have mag: "magnitude (Fin m) = Fin g"
    unfolding m_def g_def by (rule magnitude_7_hundredths)
  have q: "js_div (Fin m) (Fin g) = Fin (7881299347898369 / 2 ^ 50)"
    using quotient_7 by (simp add: m_def g_def)
  have "\<lceil>7881299347898369 / 2 ^ 50 :: real\<rceil> = 8"
    by (intro ceiling_unique) simp_all
  then have ceil: "Math_ceil (Fin (7881299347898369 / 2 ^ 50)) = Fin 8"
    by (simp del: ceiling_divide_eq_div_numeral)
  have p: "js_mul (Fin 8) (Fin g) = Fin c"
    using product_8 by (simp add: c_def g_def)
  have "Math_max (map Math_abs [Fin m]) = Fin m"
    using m(2) by (simp add: Math_max_def)
  then have "chartMax [Fin m] = Fin c"
    using c(2) small by (simp only: chartMax_def Let_def mag q ceil p if_False js_strict_eq.simps jsnum.inject)
  then show ?thesis
    by (simp only: m(1) c(1))
qed

lemma chartMax_above_tenth:
  assumes "Math_max (map Math_abs scores) = Fin m" and "js_gt (Fin m) (to_double (1 / 10))"
  shows "chartMax scores = Fin 1"
  using assms by (simp add: chartMax_def)

text \<open>A product that is not zero in the cases the ceiling computation can reach.\<close>

lemma ceiling_product_not_zero:
  assumes m: "2 powr (- 1074) \<le> m" and g: "0 < g" "g \<le> 1" "2 powr (- 1074) \<le> g"
  shows "js_mul (Math_ceil (js_div (Fin m) (Fin g))) (Fin g) \<noteq> Fin 0"
proof -
  have pos: "0 < m"
    using m least_pos by linarith
  have "m \<le> m / g"
    using g(1,2) pos by (simp add: pos_le_divide_eq mult_left_le)
  with m have q: "2 powr (- 1074) \<le> m / g"
    by linarith
  show ?thesis
  proof (cases "to_double (m / g)")
    case NaN
    then show ?thesis by simp
  next
    case NegInf
    with to_double_nonneg(1) [of "m / g"] pos g(1) show ?thesis
      by simp
  next
    case PosInf
    with g(1) show ?thesis
      by simp
  next
    case (Fin qv)
    from q Fin have qv: "2 powr (- 1074) \<le> qv"
      by (rule to_double_ge_least)
    then have "0 < qv"
      using least_pos by linarith
    then have "0 < \<lceil>qv\<rceil>"
      by (simp only: zero_less_ceiling)
    then have "1 \<le> \<lceil>qv\<rceil>"
      by linarith
    then have "(1::real) \<le> of_int \<lceil>qv\<rceil>"
      by simp
    then have "1 * g \<le> of_int \<lceil>qv\<rceil> * g"
      using g(1) by (intro mult_right_mono) simp_all
    with g(3) have arg: "2 powr (- 1074) \<le> of_int \<lceil>qv\<rceil> * g"
      by linarith
    have "to_double (of_int \<lceil>qv\<rceil> * g) \<noteq> Fin 0"
    proof
      assume "to_double (of_int \<lceil>qv\<rceil> * g) = Fin 0"
      with arg have "2 powr (- 1074) \<le> (0::real)"
        by (rule to_double_ge_least)
      with least_pos show False
        by linarith
    qed
    with Fin g(1) show ?thesis
      by simp
  qed
qed

lemma chartMax_up_to_tenth:
  assumes "Math_max (map Math_abs scores) = Fin m"
    and "2 powr (- 1074) \<le> m" and "\<not> js_gt (Fin m) (to_double (1 / 10))"
  shows "chartMax scores = js_mul (Math_ceil (js_div (Fin m) (magnitude (Fin m)))) (magnitude (Fin m))"
proof -
  have pos: "0 < m"
    using assms(2) least_pos by linarith
  have "m \<le> 7205759403792794 / 2 ^ 56"
    using assms(3) by (simp add: to_double_tenth)
  then have m1: "m \<le> 1"
    by simp
  have "js_mul (Math_ceil (js_div (Fin m) (magnitude (Fin m)))) (magnitude (Fin m)) \<noteq> Fin 0"
  proof (cases "to_double (log 10 m)")
    case NaN
    then show ?thesis by simp
  next
    case NegInf
    with pos show ?thesis
      by (simp add: magnitude_def)
  next
    case PosInf
    moreover have "log 10 m \<le> 0"
      using pos m1 by simp
    ultimately show ?thesis
      using to_double_nonpos(1) [of "log 10 m"] by simp
  next
    case (Fin v)
    have "log 10 m \<le> 0"
      using pos m1 by simp
    from this Fin have "v \<le> 0"
      by (rule to_double_nonpos(2))
    then have k: "\<lfloor>v\<rfloor> \<le> 0"
      using floor_mono [of v 0] by simp
    have mag: "magnitude (Fin m) = to_double (10 powr of_int \<lfloor>v\<rfloor>)"
      using pos Fin by (simp add: magnitude_def)
    have "(10::real) powr of_int \<lfloor>v\<rfloor> \<le> 10 powr 0"
      using k by (intro powr_mono) simp_all
    then have le1: "(10::real) powr of_int \<lfloor>v\<rfloor> \<le> 1"
      by simp
    have "0 \<le> (10::real) powr of_int \<lfloor>v\<rfloor>"
      by simp
    with le1 have "\<exists>g. to_double (10 powr of_int \<lfloor>v\<rfloor>) = Fin g \<and>
        of_int 0 / 2 ^ 0 \<le> g \<and> g \<le> of_int 1 / 2 ^ 0"
      by (intro to_double_between) simp_all
    then obtain g where g: "to_double (10 powr of_int \<lfloor>v\<rfloor>) = Fin g" "0 \<le> g" "g \<le> 1"
      by auto
    show ?thesis
    proof (cases "g = 0")
      case True
      with pos show ?thesis
        by (simp add: mag g(1))
    next
      case False
      with g(2) have "0 < g"
        by simp
      moreover from g(1) this have "2 powr (- 1074) \<le> g"
        by (rule to_double_pos_least)
      ultimately have "js_mul (Math_ceil (js_div (Fin m) (Fin g))) (Fin g) \<noteq> Fin 0"
        using assms(2) g(3) by (intro ceiling_product_not_zero)
      then show ?thesis
        unfolding mag g(1) .
    qed
  qed
  then have "\<not> js_strict_eq
      (js_mul (Math_ceil (js_div (Fin m) (magnitude (Fin m)))) (magnitude (Fin m))) (Fin 0)"
    by (cases "js_mul (Math_ceil (js_div (Fin m) (magnitude (Fin m)))) (magnitude (Fin m))") simp_all
  with assms(1,3) show ?thesis
    by (simp only: chartMax_def Let_def if_False)
qed

section \<open>Percentages and status: auxiliary facts\<close>



text \<open>
  The percentage of a confidence \<open>r\<close> is the integer nearest to \<open>100 r\<close> as soon as
  \<open>100 r\<close> is not within one hundredth of the midpoint between two integers: the two
  roundings, of the literal and of the product, move the value by far less.
\<close>

lemma round_percent:
  assumes "\<bar>r\<bar> < 2" and "of_int n - 49 / 100 \<le> 100 * r" and "100 * r \<le> of_int n + 49 / 100"
  shows "Math_round (js_mul (to_double r) (Fin 100)) = Fin (of_int n)"
proof -
  have "\<bar>r\<bar> < 2 ^ (53 - 52)"
    using assms(1) by simp
  then have "\<exists>v. to_double r = Fin v \<and> r - 1 / 2 ^ Suc 52 \<le> v \<and> v \<le> r + 1 / 2 ^ Suc 52"
    by (rule to_double_error) simp
  then obtain v where v: "to_double r = Fin v" "r - 1 / 2 ^ 53 \<le> v" "v \<le> r + 1 / 2 ^ 53"
    by auto
  have "\<bar>v * 100\<bar> < 256"
    using v(2,3) assms(1) by (simp add: abs_less_iff)
  then have "\<bar>v * 100\<bar> < 2 ^ (53 - 45)"
    by simp
  then have "\<exists>w. to_double (v * 100) = Fin w \<and>
      v * 100 - 1 / 2 ^ Suc 45 \<le> w \<and> w \<le> v * 100 + 1 / 2 ^ Suc 45"
    by (rule to_double_error) simp
  then obtain w where w: "to_double (v * 100) = Fin w"
      "v * 100 - 1 / 2 ^ 46 \<le> w" "w \<le> v * 100 + 1 / 2 ^ 46"
    by auto
  from v(2,3) w(2,3) have "100 * r - 1 / 1000 \<le> w" "w \<le> 100 * r + 1 / 1000"
    by simp_all
  with assms(2,3) have "of_int n \<le> w + 1 / 2" "w + 1 / 2 < of_int n + 1"
    by linarith+
  then have "\<lfloor>w + 1 / 2\<rfloor> = n"
    by (rule floor_unique)
  then show ?thesis
    by (simp add: v(1) w(1))
qed

text \<open>The normalization returns once both fields are there and no item is \<open>null\<close>.\<close>

lemma normalize_words_total:
  assumes "None \<notin> set items"
  shows "\<exists>ks. normalize_words strtod items = Inr ks"
  using assms
proof (induction items)
  case Nil
  then show ?case by simp
next
  case (Cons item items)
  then obtain ks where "normalize_words strtod items = Inr ks"
    by auto
  with Cons.prems show ?case
    by (cases item) (auto simp: Let_def)
qed

lemma normalize_words_score:
  assumes "normalize_words strtod items = Inr ks"
  shows "\<forall>k\<in>set ks. score k = Math_tanh (weight k)"
  using assms
proof (induction items arbitrary: ks)
  case Nil
  then show ?case by simp
next
  case (Cons item items)
  then show ?case
    by (cases item) (auto simp: Let_def split: sum.splits)
qed

lemma formattedData_total:
  assumes "confidence a = Some conf" and "words a = Some ws" and "None \<notin> set ws"
  shows "\<exists>ks. formattedData strtod a =
           Inr \<lparr>percent =
                  \<lparr>fake = Math_round (js_mul (parseFloat strtod (conf ''Fake News'')) (Fin 100)),
                   neutral = Fin 0,
                   real' = Math_round (js_mul (parseFloat strtod (conf ''Real News'')) (Fin 100))\<rparr>,
                keywords' = ks\<rparr>"
proof -
  from normalize_words_total [OF assms(3)] obtain ks where "normalize_words strtod ws = Inr ks"
    by blast
  with assms(1,2) show ?thesis
    by (simp add: formattedData_def)
qed

section \<open>The keyword score: auxiliary facts\<close>

text \<open>
  The hyperbolic tangent of 20 is closer to 1 than half the distance between 1 and the
  double below it (that distance is 2 to the -53), so the double nearest to it is 1
  itself.
\<close>

lemma exp_40_lower: "2 ^ 55 < exp (40::real)"
proof -
  have "1 + (1 / 2) + (1 / 2)\<^sup>2 / 2 \<le> exp (1 / 2 :: real)"
    by (rule exp_lower_Taylor_quadratic) simp
  then have "(13 / 8 :: real) \<le> exp (1 / 2)"
    by (simp add: power2_eq_square)
  then have "(13 / 8 :: real) ^ 80 \<le> exp (1 / 2) ^ 80"
    by (intro power_mono) simp_all
  also have "exp (1 / 2 :: real) ^ 80 = exp 40"
    by (simp flip: exp_of_nat_mult)
  finally have "(13 / 8 :: real) ^ 80 \<le> exp 40" .
  moreover have "(2::real) ^ 55 < (13 / 8) ^ 80"
    by (simp add: power_divide)
  ultimately show ?thesis
    by linarith
qed

lemma tanh_20_near_one: "1 - tanh (20::real) < 1 / 2 ^ 54"
proof -
  have e: "exp (- 40 :: real) < 1 / 2 ^ 55"
    using exp_40_lower by (simp add: exp_minus field_simps)
  have pos: "0 < 1 + exp (- 40 :: real)"
    by (simp add: add_pos_pos)
  have "tanh (20::real) = (1 - exp (- 40)) / (1 + exp (- 40))"
    using tanh_real_altdef [of 20] by simp
  then have "1 - tanh (20::real) = 2 * exp (- 40) / (1 + exp (- 40))"
    using pos by (simp add: field_simps)
  also have "\<dots> \<le> 2 * exp (- 40)"
    using pos by (simp add: field_simps)
  also have "\<dots> < 1 / 2 ^ 54"
    using e by simp
  finally show ?thesis .
qed

lemma Math_tanh_20: "Math_tanh (Fin 20) = Fin 1"
proof -
  have lt: "tanh (20::real) < 1"
    by (rule tanh_real_lt_1)
  have gt: "1 - 1 / 2 ^ 54 < tanh (20::real)"
    using tanh_20_near_one by linarith
  have "to_double (tanh 20) = Fin (of_int (2 ^ 53) * 2 powr of_int (- 1 - 52))"
  proof (rule to_double_eqI)
    show "2 powr of_int (- 1) \<le> \<bar>tanh (20::real)\<bar>"
      using gt by (simp add: powr_minus)
    show "\<bar>tanh (20::real)\<bar> < 2 powr of_int (- 1 + 1)"
      using lt gt by simp
    show "of_int (2 ^ 53) - 1 / 2 < tanh (20::real) / 2 powr of_int (- 1 - 52)"
      using gt by (simp add: powr_minus field_simps)
    show "tanh (20::real) / 2 powr of_int (- 1 - 52) < of_int (2 ^ 53) + 1 / 2"
      using lt by (simp add: powr_minus field_simps)
  qed simp_all
  then show ?thesis
    by (simp add: powr_minus)
qed

lemma Math_tanh_closed:
  "\<exists>s. Math_tanh (Fin w) = Fin s \<and> - 1 \<le> s \<and> s \<le> 1"
proof -
  have "\<bar>tanh w\<bar> \<le> 1"
    using tanh_real_lt_1 [of w] tanh_real_gt_neg1 [of w] by simp
  then show ?thesis
    using to_double_abs_le_1 [of "tanh w"] by simp
qed

lemma Math_tanh_0: "Math_tanh (Fin 0) = Fin 0"
  by (simp add: to_double_def)

section \<open>The persisted slot: auxiliary facts\<close>

lemma empty_click:
  assumes "selectionText i = None \<or> selectionText i = Some []"
    and "mediaType i \<noteq> Some ''image''"
  shows "contextMenus_onClicked i tab =
           StorageSet ''contentToAnalyze'' \<lparr>type = None, data = None\<rparr> #
           (case tab of None \<Rightarrow> [] | Some tabId \<Rightarrow> [SidePanelOpen tabId])"
  using assms by (auto simp: contextMenus_onClicked_def dataToAnalyze_def)

text \<open>
  A write of a value that the slot does not hold, made while the panel is open: the
  listener previews the value and removes the slot, and on the removal it does nothing.
\<close>

lemma write_to_open_panel:
  assumes "sidepanel x = Some p"
    and "getElementById (elements p) ''page-preview'' = Some t"
    and "''page'' \<in> set (classList (elements p ! t))"
    and "storage x ''contentToAnalyze'' \<noteq> Some c"
  shows "\<exists>p'. (\<forall>old. storage_onChanged
                      [''contentToAnalyze'' \<mapsto> \<lparr>oldValue = old, newValue = Some c\<rparr>]
                      ''local'' p = (p', [StorageRemove ''contentToAnalyze''])) \<and>
              visible_pages p' = [t] \<and>
              ''selection-mode-active'' \<notin> set (bodyClasses p') \<and>
              contentDisplay p' = contentDisplay (displayContentForPreview c p) \<and>
              (\<forall>old. storage_onChanged
                      [''contentToAnalyze'' \<mapsto> \<lparr>oldValue = old, newValue = None\<rparr>]
                      ''local'' p' = (p', [])) \<and>
              (\<forall>n. perform (Suc (Suc n)) [StorageSet ''contentToAnalyze'' c] x =
                Some (x\<lparr>storage := (storage x)(''contentToAnalyze'' := None),
                        sidepanel := Some p'\<rparr>)) \<and>
              (\<forall>tb. perform (Suc (Suc (Suc 0)))
                      [StorageSet ''contentToAnalyze'' c, SidePanelOpen tb] x =
                    Some (x\<lparr>storage := (storage x)(''contentToAnalyze'' := None),
                            sidepanel := Some p', opened := opened x @ [tb]\<rparr>))"
proof -
  from storage_onChanged_new [OF assms(2,3), of c]
  obtain p' where p':
    "\<And>old. storage_onChanged
             [''contentToAnalyze'' \<mapsto> \<lparr>oldValue = old, newValue = Some c\<rparr>]
             ''local'' p = (p', [StorageRemove ''contentToAnalyze''])"
    "visible_pages p' = [t]"
    "''selection-mode-active'' \<notin> set (bodyClasses p')"
    "contentDisplay p' = contentDisplay (displayContentForPreview c p)"
    "\<And>old. storage_onChanged
             [''contentToAnalyze'' \<mapsto> \<lparr>oldValue = old, newValue = None\<rparr>]
             ''local'' p' = (p', [])"
    by blast
  have "perform (Suc (Suc n)) [StorageSet ''contentToAnalyze'' c] x =
          Some (x\<lparr>storage := (storage x)(''contentToAnalyze'' := None), sidepanel := Some p'\<rparr>)" for n
    using p'(1,5) assms(1,4) by (simp add: storage_write_def)
  moreover have "perform (Suc (Suc (Suc 0)))
          [StorageSet ''contentToAnalyze'' c, SidePanelOpen tb] x =
        Some (x\<lparr>storage := (storage x)(''contentToAnalyze'' := None),
                sidepanel := Some p', opened := opened x @ [tb]\<rparr>)" for tb
    using p'(1,5) assms(1,4) by (simp add: storage_write_def sidePanel_open_def)
  ultimately show ?thesis
    using p' by blast
qed


section \<open>Navigation: results\<close>

text \<open>
  Claim C1, as stated: navigating to an id that is not a known page leaves the visible
  page as it was. It does not: \<open>navigateTo\<close> hides every page before it looks the id
  up, so on the sample panel, where Intro is shown, no page is shown afterwards.
\<close>

theorem navigateTo_unknown_id_counterexample:
  "Some ''page-unknown'' \<notin> set (page_ids sample_panel) \<and>
   visible_pages sample_panel = [0] \<and>
   visible_pages (navigateTo ''page-unknown'' sample_panel) = [] \<and>
   set (visible_pages (navigateTo ''page-unknown'' sample_panel)) \<noteq> set (visible_pages sample_panel)"
  by code_simp

text \<open>
  Claim C1, amended: navigating to an id that is not the id of a known page hides every
  page, so that none is visible afterwards; and when no element of the document has the
  id, the positional indicator (the class lists of the navigation items) is not altered.
\<close>

theorem navigateTo_unknown_id:
  "(Some pageId \<notin> set (page_ids p) \<longrightarrow> visible_pages (navigateTo pageId p) = []) \<and>
   (getElementById (elements p) pageId = None \<longrightarrow>
      navigation (navigateTo pageId p) = navigation p)"
  by (simp add: navigateTo_unknown navigateTo_None)

theorem navigateTo_unknown_id_witness:
  "Some ''page-unknown'' \<notin> set (page_ids sample_panel) \<and>
   getElementById (elements sample_panel) ''page-unknown'' = None \<and>
   visible_pages (navigateTo ''page-unknown'' sample_panel) = [] \<and>
   navigation (navigateTo ''page-unknown'' sample_panel) = navigation sample_panel"
proof -
  have h1: "Some ''page-unknown'' \<notin> set (page_ids sample_panel)"
    by code_simp
  have h2: "getElementById (elements sample_panel) ''page-unknown'' = None"
    by code_simp
  from navigateTo_unknown_id [of "''page-unknown''" sample_panel] h1 h2 show ?thesis
    by blast
qed


section \<open>Axis ceiling: results\<close>

text \<open>
  Claim C2. When every keyword score is exactly zero the largest absolute score is 0, and
  the claim expects the ceiling 0.01. The code does not get there: the magnitude is
  \<open>Math.pow(10, Math.floor(Math.log10(0)))\<close>, that is 10 to the \<open>-Infinity\<close>, which
  is 0; the quotient \<open>0 / 0\<close> is \<open>NaN\<close>, and so is the product. \<open>NaN === 0\<close> is false,
  so the fallback assignment is skipped and the ceiling stays \<open>NaN\<close>, for one zero score
  and for any number of them; it is neither one hundredth nor the double \<open>0.01\<close>.
\<close>

theorem chartMax_all_zero_is_NaN:
  "chartMax (replicate (Suc n) (Fin 0)) = NaN \<and> chartMax [Fin 0] \<noteq> Fin (1 / 100) \<and>
   chartMax [Fin 0] \<noteq> to_double (1 / 100)"
proof -
  have "foldl max2 (Fin 0) (replicate k (Fin 0)) = Fin 0" for k
    by (induction k) simp_all
  then have "Math_max (map Math_abs (replicate (Suc n) (Fin 0))) = Fin 0"
    by (simp add: Math_max_def)
  moreover have "Math_max (map Math_abs [Fin 0]) = Fin 0"
    by (simp add: Math_max_def)
  ultimately show ?thesis
    by (simp add: chartMax_def magnitude_def to_double_tenth to_double_hundredth)
qed

text \<open>
  Claim C3, as stated, gives the ceiling 0.1 for a largest absolute score of 0.05, and
  takes the ceiling to be the score rounded up to the next multiple of its magnitude.
  For the score 0.05 the code gives 0.05: the magnitude is 10 to the
  \<open>floor(log10(0.05)) = -2\<close>, that is 0.01, and \<open>ceil(0.05 / 0.01) * 0.01\<close> is
  \<open>5 * 0.01\<close>. For the score 0.07, in decimal itself a multiple of 0.01, the code
  gives 0.08: the quotient \<open>0.07 / 0.01\<close> is the double above 7, and its ceiling is 8.
\<close>

theorem chartMax_five_percent_counterexample:
  "chartMax [to_double (5 / 100)] = to_double (5 / 100) \<and>
   to_double (5 / 100) \<noteq> to_double (1 / 10) \<and>
   chartMax [to_double (7 / 100)] = to_double (8 / 100) \<and>
   to_double (8 / 100) \<noteq> to_double (7 / 100)"
proof -
  have "to_double (5 / 100) \<noteq> to_double (1 / 10)"
    using to_double_twentieth to_double_tenth by simp
  moreover have "to_double (8 / 100) \<noteq> to_double (7 / 100)"
    unfolding to_double_8_hundredths to_double_7_hundredths by simp
  ultimately show ?thesis
    using chartMax_twentieth chartMax_7_hundredths by blast
qed

text \<open>
  Claim C3, amended: the ceiling is 1.0 whenever the largest absolute score exceeds the
  double 0.1. When that score is a positive double not above 0.1, the ceiling is
  \<open>Math.ceil(maxAbs / magnitude) * magnitude\<close> with \<open>magnitude\<close> the power of ten
  \<open>Math.pow(10, Math.floor(Math.log10(maxAbs)))\<close>, the quotient and the product being
  rounded to doubles; the fallback value is not taken. (A largest absolute score of 0 is
  claim C2.)
\<close>

theorem chartMax_rule:
  assumes "Math_max (map Math_abs scores) = Fin m"
  shows "(js_gt (Fin m) (to_double (1 / 10)) \<longrightarrow> chartMax scores = Fin 1) \<and>
         (2 powr (- 1074) \<le> m \<and> \<not> js_gt (Fin m) (to_double (1 / 10)) \<longrightarrow>
            chartMax scores =
              js_mul (Math_ceil (js_div (Fin m) (magnitude (Fin m)))) (magnitude (Fin m)))"
  using assms chartMax_above_tenth [of scores m] chartMax_up_to_tenth [of scores m]
  by blast

text \<open>
  A largest absolute score of 0.15 yields 1.0, one of 0.05 yields 0.05, and one of 0.07
  yields 0.08.
\<close>

theorem chartMax_rule_witness:
  "chartMax [to_double (2 / 100), to_double (- (15 / 100))] = Fin 1 \<and>
   chartMax [to_double (- (5 / 100))] = to_double (5 / 100) \<and>
   chartMax [to_double (7 / 100)] = to_double (8 / 100)"
proof -
  define a :: real where "a = 5404319552844595 / 2 ^ 55"
  define b :: real where "b = 7205759403792794 / 2 ^ 57"
  define c :: real where "c = 5044031582654956 / 2 ^ 56"
  define g :: real where "g = 5764607523034235 / 2 ^ 59"
  have h1: "Math_max (map Math_abs [to_double (2 / 100), to_double (- (15 / 100))]) = Fin a"
    unfolding to_double_2_hundredths to_double_minus_15_hundredths a_def
    by (simp add: Math_max_def)
  have g1: "js_gt (Fin a) (to_double (1 / 10))"
    unfolding to_double_tenth a_def by simp
  have h2: "Math_max (map Math_abs [to_double (- (5 / 100))]) = Fin b"
    unfolding to_double_minus_twentieth b_def by (simp add: Math_max_def)
  have g2: "\<not> js_gt (Fin b) (to_double (1 / 10))"
    unfolding to_double_tenth b_def by simp
  have l2: "2 powr (- 1074) \<le> b"
  proof -
    have "(1 / 2 ^ 60 :: real) \<le> b"
      unfolding b_def by simp
    with least_le_small show ?thesis
      by (rule order_trans)
  qed
  have h3: "Math_max (map Math_abs [to_double (7 / 100)]) = Fin c"
    unfolding to_double_7_hundredths c_def by (simp add: Math_max_def)
  have g3: "\<not> js_gt (Fin c) (to_double (1 / 10))"
    unfolding to_double_tenth c_def by simp
  have l3: "2 powr (- 1074) \<le> c"
  proof -
    have "(1 / 2 ^ 60 :: real) \<le> c"
      unfolding c_def by simp
    with least_le_small show ?thesis
      by (rule order_trans)
  qed
  have mb: "magnitude (Fin b) = Fin g"
    unfolding b_def g_def by (rule magnitude_twentieth)
  have mc: "magnitude (Fin c) = Fin g"
    unfolding c_def g_def by (rule magnitude_7_hundredths)
  have qb: "js_div (Fin b) (Fin g) = Fin 5"
    unfolding b_def g_def using quotient_5 by simp
  have pb: "js_mul (Fin 5) (Fin g) = to_double (5 / 100)"
    unfolding g_def using product_5 to_double_twentieth by simp
  have qc: "Math_ceil (js_div (Fin c) (Fin g)) = Fin 8"
  proof -
    have "js_div (Fin c) (Fin g) = Fin (7881299347898369 / 2 ^ 50)"
      unfolding c_def g_def using quotient_7 by simp
    moreover have "\<lceil>7881299347898369 / 2 ^ 50 :: real\<rceil> = 8"
      by (rule ceiling_unique) simp_all
    ultimately show ?thesis
      by simp
  qed
  have pc: "js_mul (Fin 8) (Fin g) = to_double (8 / 100)"
    unfolding g_def using product_8 to_double_8_hundredths by simp
  have "chartMax [to_double (2 / 100), to_double (- (15 / 100))] = Fin 1"
    using chartMax_rule [OF h1] g1 by blast
  moreover have "chartMax [to_double (- (5 / 100))] = to_double (5 / 100)"
  proof -
    have "chartMax [to_double (- (5 / 100))] =
            js_mul (Math_ceil (js_div (Fin b) (magnitude (Fin b)))) (magnitude (Fin b))"
      using chartMax_rule [OF h2] g2 l2 by blast
    also have "\<dots> = to_double (5 / 100)"
      unfolding mb qb using pb by simp
    finally show ?thesis .
  qed
  moreover have "chartMax [to_double (7 / 100)] = to_double (8 / 100)"
  proof -
    have "chartMax [to_double (7 / 100)] =
            js_mul (Math_ceil (js_div (Fin c) (magnitude (Fin c)))) (magnitude (Fin c))"
      using chartMax_rule [OF h3] g3 l3 by blast
    also have "\<dots> = to_double (8 / 100)"
      unfolding mc qc by (rule pc)
    finally show ?thesis .
  qed
  ultimately show ?thesis
    by blast
qed

section \<open>Normalization and status: results\<close>




text \<open>
  Claim C5. On every answer that has \<open>confidence\<close> and \<open>words\<close>, with no \<open>null\<close>
  among the items, the normalization returns, with
  \<open>fake = Math.round(parseFloat(confidence["Fake News"]) * 100)\<close>, \<open>real\<close> likewise
  from \<open>"Real News"\<close>, and \<open>neutral = 0\<close>. On a numeric field \<open>parseFloat\<close> is the
  double of the number, and the percentage is the integer nearest to 100 times the number
  unless that product is within one hundredth of a midpoint between two integers. The two
  roundings are independent, so the sum need not be 100: 0.506 and 0.496 give 51 and 50.
\<close>

theorem formattedData_percentages:
  "(confidence a = Some conf \<and> words a = Some ws \<and> None \<notin> set ws \<longrightarrow>
      (\<exists>d. formattedData strtod a = Inr d \<and>
           fake (percent d) = Math_round (js_mul (parseFloat strtod (conf ''Fake News'')) (Fin 100)) \<and>
           real' (percent d) = Math_round (js_mul (parseFloat strtod (conf ''Real News'')) (Fin 100)) \<and>
           neutral (percent d) = Fin 0)) \<and>
   parseFloat strtod (JNumber x) = to_double x \<and>
   (\<bar>x\<bar> < 2 \<and> of_int k - 49 / 100 \<le> 100 * x \<and> 100 * x \<le> of_int k + 49 / 100 \<longrightarrow>
      Math_round (js_mul (parseFloat strtod (JNumber x)) (Fin 100)) = Fin (of_int k)) \<and>
   (\<exists>b d. formattedData strtod b = Inr d \<and>
          real' (percent d) = Fin 51 \<and> fake (percent d) = Fin 50)"
proof -
  have total: "\<exists>d. formattedData strtod a = Inr d \<and>
           fake (percent d) = Math_round (js_mul (parseFloat strtod (conf ''Fake News'')) (Fin 100)) \<and>
           real' (percent d) = Math_round (js_mul (parseFloat strtod (conf ''Real News'')) (Fin 100)) \<and>
           neutral (percent d) = Fin 0"
    if "confidence a = Some conf" "words a = Some ws" "None \<notin> set ws" for a conf ws
    using formattedData_total [OF that, of strtod] by auto
  have rounding: "Math_round (js_mul (parseFloat strtod (JNumber x)) (Fin 100)) = Fin (of_int k)"
    if "\<bar>x\<bar> < 2" "of_int k - 49 / 100 \<le> 100 * x" "100 * x \<le> of_int k + 49 / 100" for x k
    using round_percent [OF that] by (simp del: js_mul.simps Math_round.simps)
  have r1: "Math_round (js_mul (parseFloat strtod (JNumber (506 / 1000))) (Fin 100)) = Fin 51"
    using rounding [of "506 / 1000" 51] by simp
  have r2: "Math_round (js_mul (parseFloat strtod (JNumber (496 / 1000))) (Fin 100)) = Fin 50"
    using rounding [of "496 / 1000" 50] by simp
  have "\<exists>b d. formattedData strtod b = Inr d \<and>
          real' (percent d) = Fin 51 \<and> fake (percent d) = Fin 50"
    using total [of "\<lparr>confidence = Some ((\<lambda>_. JAbsent)
                       (''Real News'' := JNumber (506 / 1000), ''Fake News'' := JNumber (496 / 1000))),
                     words = Some []\<rparr>"
                    "(\<lambda>_. JAbsent)
                       (''Real News'' := JNumber (506 / 1000), ''Fake News'' := JNumber (496 / 1000))"
                    "[]"]
          r1 r2
    by (auto simp del: js_mul.simps Math_round.simps parseFloat.simps)
  with total rounding show ?thesis
    by (simp del: js_mul.simps Math_round.simps)
qed

text \<open>The confidences 0.734 for real and 0.266 for fake yield 73, 27 and 0.\<close>

theorem formattedData_percentages_witness:
  "\<exists>d. formattedData (\<lambda>_. NaN)
         \<lparr>confidence = Some ((\<lambda>_. JAbsent)
             (''Real News'' := JNumber (734 / 1000), ''Fake News'' := JNumber (266 / 1000))),
          words = Some []\<rparr> = Inr d \<and>
       fake (percent d) = Fin 27 \<and> real' (percent d) = Fin 73 \<and> neutral (percent d) = Fin 0"
proof -
  have r1: "Math_round (js_mul (parseFloat (\<lambda>_. NaN) (JNumber (734 / 1000))) (Fin 100)) = Fin 73"
    using formattedData_percentages [of undefined undefined undefined "\<lambda>_. NaN" "734 / 1000" 73]
    by simp
  have r2: "Math_round (js_mul (parseFloat (\<lambda>_. NaN) (JNumber (266 / 1000))) (Fin 100)) = Fin 27"
    using formattedData_percentages [of undefined undefined undefined "\<lambda>_. NaN" "266 / 1000" 27]
    by simp
  show ?thesis
    using formattedData_percentages
         [of "\<lparr>confidence = Some ((\<lambda>_. JAbsent)
                (''Real News'' := JNumber (734 / 1000), ''Fake News'' := JNumber (266 / 1000))),
              words = Some []\<rparr>"
             "(\<lambda>_. JAbsent)
                (''Real News'' := JNumber (734 / 1000), ''Fake News'' := JNumber (266 / 1000))"
             "[]" "\<lambda>_. NaN" 0 0]
          r1 r2
    by (auto simp del: js_mul.simps Math_round.simps parseFloat.simps)
qed

section \<open>The keyword score: results\<close>

text \<open>
  Claim C6, as stated, puts the score \<open>Math.tanh(weight)\<close> strictly inside the interval
  from -1 to 1 for every finite weight. The score is a double, and for the weight 20 it
  is exactly 1; the normalization hands that score to the chart.
\<close>

theorem score_reaches_one_counterexample:
  "Math_tanh (Fin 20) = Fin 1 \<and>
   formattedData (\<lambda>_. NaN)
     \<lparr>confidence = Some (\<lambda>_. JAbsent), words = Some [Some (JString ''sure'', JNumber 20)]\<rparr> =
   Inr \<lparr>percent = \<lparr>fake = NaN, neutral = Fin 0, real' = NaN\<rparr>,
        keywords' = [\<lparr>word = JString ''sure'', score = Fin 1, weight = Fin 20\<rparr>]\<rparr>"
  using Math_tanh_20 by (simp add: formattedData_def to_double_20 del: Math_tanh.simps)

text \<open>
  Claim C6, amended: for every finite weight the score \<open>Math.tanh(weight)\<close> is a finite
  number in the closed interval from -1 to 1, \<open>Math.tanh(0)\<close> is 0, and the score of
  every keyword that the normalization returns is \<open>Math.tanh\<close> of its weight.
\<close>

theorem keyword_score_bounds:
  "(\<exists>s. Math_tanh (Fin w) = Fin s \<and> - 1 \<le> s \<and> s \<le> 1) \<and>
   Math_tanh (Fin 0) = Fin 0 \<and>
   (normalize_words strtod items = Inr ks \<longrightarrow> (\<forall>k\<in>set ks. score k = Math_tanh (weight k)))"
  using Math_tanh_closed [of w] Math_tanh_0 normalize_words_score [of strtod items ks]
  by blast

text \<open>The weights 20 and 0 give the scores 1 and 0.\<close>

theorem keyword_score_bounds_witness:
  "normalize_words (\<lambda>_. NaN) [Some (JString ''sure'', JNumber 20), Some (JString ''the'', JNumber 0)] =
     Inr [\<lparr>word = JString ''sure'', score = Fin 1, weight = Fin 20\<rparr>,
          \<lparr>word = JString ''the'', score = Fin 0, weight = Fin 0\<rparr>] \<and>
   Math_tanh (Fin 20) = Fin 1 \<and> Math_tanh (Fin 0) = Fin 0 \<and>
   (\<exists>s. Math_tanh (Fin 20) = Fin s \<and> - 1 \<le> s \<and> s \<le> 1)"
proof -
  have w20: "parseFloat (\<lambda>_. NaN) (JNumber 20) = Fin 20"
    by (simp add: to_double_20)
  have w0: "parseFloat (\<lambda>_. NaN) (JNumber 0) = Fin 0"
    by (simp add: to_double_def)
  have n: "normalize_words (\<lambda>_. NaN)
             [Some (JString ''sure'', JNumber 20), Some (JString ''the'', JNumber 0)] =
           Inr [\<lparr>word = JString ''sure'', score = Fin 1, weight = Fin 20\<rparr>,
                \<lparr>word = JString ''the'', score = Fin 0, weight = Fin 0\<rparr>]"
    by (simp only: normalize_words.simps Let_def w20 w0 Math_tanh_20 Math_tanh_0 sum.case)
  from keyword_score_bounds
         [of 20 "\<lambda>_. NaN" "[Some (JString ''sure'', JNumber 20), Some (JString ''the'', JNumber 0)]"
             "[\<lparr>word = JString ''sure'', score = Fin 1, weight = Fin 20\<rparr>,
               \<lparr>word = JString ''the'', score = Fin 0, weight = Fin 0\<rparr>]"]
       n
  have b: "\<exists>s. Math_tanh (Fin 20) = Fin s \<and> - 1 \<le> s \<and> s \<le> 1"
    and q: "\<forall>k\<in>set [\<lparr>word = JString ''sure'', score = Fin 1, weight = Fin 20\<rparr>,
                     \<lparr>word = JString ''the'', score = Fin 0, weight = Fin 0\<rparr>].
              score k = Math_tanh (weight k)"
    by blast+
  from q have "Math_tanh (Fin 20) = Fin 1" "Math_tanh (Fin 0) = Fin 0"
    by (simp_all del: Math_tanh.simps)
  with n b show ?thesis
    by blast
qed


section \<open>The analyze handler: results\<close>

text \<open>
  Claim C7. When the preview area yields no value (it is empty, or its first child gives
  none, or the value is the empty string) the handler logs \<open>No content to analyze.\<close>
  and changes nothing else: no request is issued and no handler run is left waiting
  for an answer. A request is issued exactly when there is a non-empty value, and it
  carries that value.
\<close>

theorem analyze_needs_value:
  "(no_value (contentToAnalyze (contentDisplay p)) \<longrightarrow>
      analyzeBtn_click p = p\<lparr>console := console p @ [''No content to analyze.'']\<rparr> \<and>
      requests (analyzeBtn_click p) = requests p \<and>
      awaiting (analyzeBtn_click p) = awaiting p) \<and>
   (\<not> no_value (contentToAnalyze (contentDisplay p)) \<longrightarrow>
      (\<exists>r. contentToAnalyze (contentDisplay p) = Some r \<and> req_value r \<noteq> [] \<and>
           requests (analyzeBtn_click p) = requests p @ [r])) \<and>
   (contentDisplay p = [] \<longrightarrow> no_value (contentToAnalyze (contentDisplay p)))"
  by (auto simp: analyzeBtn_click_def no_value_def contentToAnalyze_def Let_def split: option.splits)

theorem analyze_needs_value_witness:
  "contentDisplay sample_panel = [] \<and>
   analyzeBtn_click sample_panel = sample_panel\<lparr>console := [''No content to analyze.'']\<rparr> \<and>
   requests (analyzeBtn_click sample_panel) = [] \<and>
   \<not> no_value (contentToAnalyze (contentDisplay preview_panel)) \<and>
   requests (analyzeBtn_click preview_panel) = [\<lparr>req_type = ''text'', req_value = ''hello world''\<rparr>]"
proof -
  have h1: "contentDisplay sample_panel = []" "console sample_panel = []" "requests sample_panel = []"
    by (simp_all add: sample_panel_def)
  have h2: "contentToAnalyze (contentDisplay preview_panel) =
              Some \<lparr>req_type = ''text'', req_value = ''hello world''\<rparr>"
    by code_simp
  have h3: "\<not> no_value (contentToAnalyze (contentDisplay preview_panel))"
    by code_simp
  have h4: "requests preview_panel = []"
    by code_simp
  from analyze_needs_value [of sample_panel] analyze_needs_value [of preview_panel] h1 h2 h3 h4
  show ?thesis
    by simp
qed

text \<open>
  Claim C8 expects every failure to end with the inline error message and a visible retry
  control. The \<open>catch\<close> clause writes both, but the 100 ms timer started before the
  request is never cancelled: when the request fails before the timer fires (the network
  is down, or the server answers 500 at once), the timer's callback runs last, puts the
  "Analyzing" placeholder over the message and sets the button's display to \<open>none\<close>.
  The analyze button itself is enabled again.
\<close>

theorem late_placeholder_replaces_error:
  "resultContent (run_events (\<lambda>_. NaN) preview_panel
      [Click, Settled (Rejected ''Failed to fetch''), Timeout]) = Analyzing \<and>
   navButton (run_events (\<lambda>_. NaN) preview_panel
      [Click, Settled (Rejected ''Failed to fetch''), Timeout]) = Some ''none'' \<and>
   resultContent (run_events (\<lambda>_. NaN) preview_panel
      [Click, Settled (Responded 500 (Inl [])), Timeout]) = Analyzing \<and>
   navButton (run_events (\<lambda>_. NaN) preview_panel
      [Click, Settled (Responded 500 (Inl [])), Timeout]) = Some ''none''"
proof -
  have h1: "\<not> no_value (contentToAnalyze (contentDisplay preview_panel))"
    by code_simp
  have h2: "\<not> analyzeDisabled preview_panel"
    by code_simp
  have h3: "navButton preview_panel = Some []"
    by code_simp
  from stale_placeholder [OF h1 h2] h3 show ?thesis
    by simp
qed


section \<open>The persisted slot: results\<close>

text \<open>
  Claim C9. Let the panel be open and have a Preview page. When a value that the slot
  does not already hold is written to it, the listener, whatever page is shown, removes
  the selection-active class, renders the value (a quoted block for a text, a wrapped
  image for an image), leaves Preview as the one visible page and asks for the slot to be
  removed. The listener's run on that removal changes nothing and makes no call. So the
  write and all that follows from it take two storage calls, after which the slot is
  empty again and the panel shows the value.
\<close>

theorem new_content_is_previewed_once:
  assumes "sidepanel x = Some p"
    and "getElementById (elements p) ''page-preview'' = Some t"
    and "''page'' \<in> set (classList (elements p ! t))"
    and "storage x ''contentToAnalyze'' \<noteq> Some c"
  shows "\<exists>p'. (\<forall>old. storage_onChanged
                      [''contentToAnalyze'' \<mapsto> \<lparr>oldValue = old, newValue = Some c\<rparr>]
                      ''local'' p = (p', [StorageRemove ''contentToAnalyze''])) \<and>
              visible_pages p' = [t] \<and>
              ''selection-mode-active'' \<notin> set (bodyClasses p') \<and>
              (type c = Some ''text'' \<and> data c = Some s \<and> s \<noteq> [] \<longrightarrow>
                 contentDisplay p' = [Element ''BLOCKQUOTE'' [] [] [Text s]]) \<and>
              (type c = Some ''image'' \<and> data c = Some s \<longrightarrow>
                 contentDisplay p' =
                   [Element ''DIV'' [''preview-image-wrapper''] [] [Element ''IMG'' [] s []]]) \<and>
              (\<forall>old. storage_onChanged
                      [''contentToAnalyze'' \<mapsto> \<lparr>oldValue = old, newValue = None\<rparr>]
                      ''local'' p' = (p', [])) \<and>
              perform 2 [StorageSet ''contentToAnalyze'' c] x =
                Some (x\<lparr>storage := (storage x)(''contentToAnalyze'' := None),
                        sidepanel := Some p'\<rparr>)"
proof -
  from write_to_open_panel [OF assms]
  obtain p' where p':
    "\<And>old. storage_onChanged
             [''contentToAnalyze'' \<mapsto> \<lparr>oldValue = old, newValue = Some c\<rparr>]
             ''local'' p = (p', [StorageRemove ''contentToAnalyze''])"
    "visible_pages p' = [t]"
    "''selection-mode-active'' \<notin> set (bodyClasses p')"
    "contentDisplay p' = contentDisplay (displayContentForPreview c p)"
    "\<And>old. storage_onChanged
             [''contentToAnalyze'' \<mapsto> \<lparr>oldValue = old, newValue = None\<rparr>]
             ''local'' p' = (p', [])"
    "\<And>n. perform (Suc (Suc n)) [StorageSet ''contentToAnalyze'' c] x =
       Some (x\<lparr>storage := (storage x)(''contentToAnalyze'' := None), sidepanel := Some p'\<rparr>)"
    by blast
  have "perform 2 [StorageSet ''contentToAnalyze'' c] x =
          Some (x\<lparr>storage := (storage x)(''contentToAnalyze'' := None), sidepanel := Some p'\<rparr>)"
    using p'(6) [of 0] by (simp add: numeral_2_eq_2)
  moreover have "type c = Some ''text'' \<and> data c = Some s \<and> s \<noteq> [] \<longrightarrow>
                 contentDisplay p' = [Element ''BLOCKQUOTE'' [] [] [Text s]]"
    using p'(4) by (simp add: displayContentForPreview_def)
  moreover have "type c = Some ''image'' \<and> data c = Some s \<longrightarrow>
                 contentDisplay p' =
                   [Element ''DIV'' [''preview-image-wrapper''] [] [Element ''IMG'' [] s []]]"
    using p'(4) by (simp add: displayContentForPreview_def)
  ultimately show ?thesis
    using p'(1,2,3,5) by blast
qed

text \<open>On the sample panel, with Intro shown, the text \<open>hello world\<close> is previewed.\<close>

theorem new_content_is_previewed_once_witness:
  "\<exists>p'. perform 2 [StorageSet ''contentToAnalyze'' \<lparr>type = Some ''text'', data = Some ''hello world''\<rparr>]
            sample_extension = Some (sample_extension\<lparr>sidepanel := Some p'\<rparr>) \<and>
        visible_pages p' = [2] \<and>
        ''selection-mode-active'' \<notin> set (bodyClasses p') \<and>
        contentDisplay p' = [Element ''BLOCKQUOTE'' [] [] [Text ''hello world'']]"
proof -
  have h0: "sidepanel sample_extension = Some sample_panel"
    by (simp add: sample_extension_def)
  have h1: "getElementById (elements sample_panel) ''page-preview'' = Some 2"
    by code_simp
  have h2: "''page'' \<in> set (classList (elements sample_panel ! 2))"
    by code_simp
  have h3: "storage sample_extension ''contentToAnalyze'' \<noteq>
              Some \<lparr>type = Some ''text'', data = Some ''hello world''\<rparr>"
    by (simp add: sample_extension_def)
  have h4: "sample_extension\<lparr>storage := (storage sample_extension)(''contentToAnalyze'' := None)\<rparr>
              = sample_extension"
    by (simp add: sample_extension_def)
  from new_content_is_previewed_once [OF h0 h1 h2 h3, of "''hello world''"] h4
  show ?thesis
    by auto
qed

text \<open>
  Claim C10, as stated, has the panel preview the empty object of a context-menu click
  that carries neither a text nor an image. The click writes the object and only then
  opens the panel. When the panel was closed there is no listener at the time of the
  write, and the panel that opens does not read the slot: it shows its first page, not
  Preview (the third page of the sample panel), and the slot keeps the object. And a click
  for which the browser passes no tab makes the write alone and opens nothing.
\<close>

theorem context_click_on_closed_panel_counterexample:
  "perform 2 (contextMenus_onClicked \<lparr>selectionText = None, mediaType = None, srcUrl = None\<rparr> (Some 7))
     closed_extension =
   Some \<lparr>storage = [''contentToAnalyze'' \<mapsto> \<lparr>type = None, data = None\<rparr>],
         sidepanel = Some sample_panel, markup = sample_panel, opened = [7]\<rparr> \<and>
   visible_pages sample_panel = [0] \<and>
   getElementById (elements sample_panel) ''page-preview'' = Some 2 \<and>
   contextMenus_onClicked \<lparr>selectionText = None, mediaType = None, srcUrl = None\<rparr> None =
     [StorageSet ''contentToAnalyze'' \<lparr>type = None, data = None\<rparr>]"
proof -
  have "perform (Suc (Suc 0))
          (contextMenus_onClicked \<lparr>selectionText = None, mediaType = None, srcUrl = None\<rparr> (Some 7))
          closed_extension =
        Some \<lparr>storage = [''contentToAnalyze'' \<mapsto> \<lparr>type = None, data = None\<rparr>],
              sidepanel = Some sample_panel, markup = sample_panel, opened = [7]\<rparr>"
    by (simp add: contextMenus_onClicked_def dataToAnalyze_def closed_extension_def
        storage_write_def sidePanel_open_def)
  moreover have "visible_pages sample_panel = [0]"
    by code_simp
  moreover have "getElementById (elements sample_panel) ''page-preview'' = Some 2"
    by code_simp
  moreover have
    "contextMenus_onClicked \<lparr>selectionText = None, mediaType = None, srcUrl = None\<rparr> None =
       [StorageSet ''contentToAnalyze'' \<lparr>type = None, data = None\<rparr>]"
    by (simp add: contextMenus_onClicked_def dataToAnalyze_def)
  ultimately show ?thesis
    by (simp add: numeral_2_eq_2)
qed

text \<open>
  Claim C10, amended: a context-menu click with neither a selected text nor an image
  writes the empty object to the slot, and then opens the side panel if the browser
  passed a tab. If the panel is already open, has a Preview page and the slot does not
  hold the empty object, the listener takes the object as new content: afterwards Preview
  is the visible page, the preview area is empty and the slot is cleared. If the panel
  is open and the slot already holds the empty object, nothing changes but the opening.
  If the panel is closed, the slot keeps the object and the panel, when it opens, is the
  document as loaded: nothing is previewed.
\<close>

theorem empty_context_click_previews_nothing:
  assumes "selectionText i = None \<or> selectionText i = Some []"
    and "mediaType i \<noteq> Some ''image''"
  shows "contextMenus_onClicked i tab =
           StorageSet ''contentToAnalyze'' \<lparr>type = None, data = None\<rparr> #
           (case tab of None \<Rightarrow> [] | Some tabId \<Rightarrow> [SidePanelOpen tabId]) \<and>
         (sidepanel x = Some p \<and>
          getElementById (elements p) ''page-preview'' = Some t \<and>
          ''page'' \<in> set (classList (elements p ! t)) \<and>
          storage x ''contentToAnalyze'' \<noteq> Some \<lparr>type = None, data = None\<rparr> \<longrightarrow>
            (\<exists>p'. perform 3 (contextMenus_onClicked i tab) x =
                     Some (x\<lparr>storage := (storage x)(''contentToAnalyze'' := None),
                             sidepanel := Some p',
                             opened := opened x @ (case tab of None \<Rightarrow> [] | Some tabId \<Rightarrow> [tabId])\<rparr>) \<and>
                  visible_pages p' = [t] \<and> contentDisplay p' = [])) \<and>
         (sidepanel x = Some p \<and>
          storage x ''contentToAnalyze'' = Some \<lparr>type = None, data = None\<rparr> \<longrightarrow>
            perform 3 (contextMenus_onClicked i tab) x =
              Some (x\<lparr>opened := opened x @ (case tab of None \<Rightarrow> [] | Some tabId \<Rightarrow> [tabId])\<rparr>)) \<and>
         (sidepanel x = None \<longrightarrow>
            perform 3 (contextMenus_onClicked i tab) x =
              Some (x\<lparr>storage := (storage x)(''contentToAnalyze'' \<mapsto> \<lparr>type = None, data = None\<rparr>),
                      sidepanel := (case tab of None \<Rightarrow> None | Some tabId \<Rightarrow> Some (markup x)),
                      opened := opened x @ (case tab of None \<Rightarrow> [] | Some tabId \<Rightarrow> [tabId])\<rparr>))"
proof -
  let ?e = "\<lparr>type = None, data = None\<rparr>"
  let ?tabs = "case tab of None \<Rightarrow> [] | Some tabId \<Rightarrow> [tabId]"
  have click: "contextMenus_onClicked i tab =
           StorageSet ''contentToAnalyze'' ?e # map SidePanelOpen ?tabs"
    using empty_click [OF assms, of tab] by (cases tab) simp_all
  have click': "contextMenus_onClicked i tab =
           StorageSet ''contentToAnalyze'' ?e #
           (case tab of None \<Rightarrow> [] | Some tabId \<Rightarrow> [SidePanelOpen tabId])"
    by (rule empty_click [OF assms])
  have fuel: "perform 3 cs y = perform (Suc (Suc (Suc 0))) cs y" for cs y
    by (simp add: numeral_3_eq_3)
  have "\<exists>p'. perform 3 (contextMenus_onClicked i tab) x =
                     Some (x\<lparr>storage := (storage x)(''contentToAnalyze'' := None),
                             sidepanel := Some p',
                             opened := opened x @ ?tabs\<rparr>) \<and>
                  visible_pages p' = [t] \<and> contentDisplay p' = []"
    if h: "sidepanel x = Some p"
      "getElementById (elements p) ''page-preview'' = Some t"
      "''page'' \<in> set (classList (elements p ! t))"
      "storage x ''contentToAnalyze'' \<noteq> Some ?e"
  proof -
    from write_to_open_panel [OF h]
    obtain p' where p':
      "visible_pages p' = [t]"
      "contentDisplay p' = contentDisplay (displayContentForPreview ?e p)"
      "\<And>n. perform (Suc (Suc n)) [StorageSet ''contentToAnalyze'' ?e] x =
         Some (x\<lparr>storage := (storage x)(''contentToAnalyze'' := None), sidepanel := Some p'\<rparr>)"
      "\<And>tb. perform (Suc (Suc (Suc 0))) [StorageSet ''contentToAnalyze'' ?e, SidePanelOpen tb] x =
         Some (x\<lparr>storage := (storage x)(''contentToAnalyze'' := None),
                 sidepanel := Some p', opened := opened x @ [tb]\<rparr>)"
      by blast
    from p'(3) [of "Suc 0"] p'(4) have "perform 3 (contextMenus_onClicked i tab) x =
            Some (x\<lparr>storage := (storage x)(''contentToAnalyze'' := None),
                    sidepanel := Some p', opened := opened x @ ?tabs\<rparr>)"
      unfolding click fuel by (cases tab) simp_all
    moreover have "contentDisplay p' = []"
      using p'(2) by (simp add: displayContentForPreview_def)
    ultimately show ?thesis
      using p'(1) by blast
  qed
  moreover have "perform 3 (contextMenus_onClicked i tab) x =
              Some (x\<lparr>opened := opened x @ ?tabs\<rparr>)"
    if "sidepanel x = Some p" "storage x ''contentToAnalyze'' = Some ?e"
    unfolding click fuel using that
    by (cases tab) (simp_all add: storage_write_def sidePanel_open_def)
  moreover have "perform 3 (contextMenus_onClicked i tab) x =
              Some (x\<lparr>storage := (storage x)(''contentToAnalyze'' \<mapsto> ?e),
                      sidepanel := (case tab of None \<Rightarrow> None | Some tabId \<Rightarrow> Some (markup x)),
                      opened := opened x @ ?tabs\<rparr>)"
    if "sidepanel x = None"
  proof (cases "storage x ''contentToAnalyze'' = Some ?e")
    case True
    then have "(storage x)(''contentToAnalyze'' \<mapsto> ?e) = storage x"
      by (simp add: fun_upd_idem)
    with True that show ?thesis
      unfolding click fuel
      by (cases tab) (simp_all add: storage_write_def sidePanel_open_def)
  next
    case False
    with that show ?thesis
      unfolding click fuel
      by (cases tab) (simp_all add: storage_write_def sidePanel_open_def)
  qed
  ultimately show ?thesis
    using click' by blast
qed

text \<open>
  On the sample panel, open with Intro shown, the click leads to an empty Preview page;
  with the panel closed it leaves the object in the slot and opens the panel as loaded.
\<close>

theorem empty_context_click_previews_nothing_witness:
  "contextMenus_onClicked \<lparr>selectionText = None, mediaType = None, srcUrl = None\<rparr> (Some 7) =
     [StorageSet ''contentToAnalyze'' \<lparr>type = None, data = None\<rparr>, SidePanelOpen 7] \<and>
   (\<exists>p'. perform 3 (contextMenus_onClicked \<lparr>selectionText = None, mediaType = None, srcUrl = None\<rparr> (Some 7))
             sample_extension = Some (sample_extension\<lparr>sidepanel := Some p', opened := [7]\<rparr>) \<and>
         visible_pages p' = [2] \<and> contentDisplay p' = []) \<and>
   perform 3 (contextMenus_onClicked \<lparr>selectionText = None, mediaType = None, srcUrl = None\<rparr> (Some 7))
     closed_extension =
   Some (closed_extension
           \<lparr>storage := [''contentToAnalyze'' \<mapsto> \<lparr>type = None, data = None\<rparr>],
            sidepanel := Some sample_panel, opened := [7]\<rparr>)"
proof -
  let ?i = "\<lparr>selectionText = None, mediaType = None, srcUrl = None\<rparr>"
  have a1: "selectionText ?i = None \<or> selectionText ?i = Some []"
    by simp
  have a2: "mediaType ?i \<noteq> Some ''image''"
    by simp
  have h0: "sidepanel sample_extension = Some sample_panel"
    by (simp add: sample_extension_def)
  have h1: "getElementById (elements sample_panel) ''page-preview'' = Some 2"
    by code_simp
  have h2: "''page'' \<in> set (classList (elements sample_panel ! 2))"
    by code_simp
  have h3: "storage sample_extension ''contentToAnalyze'' \<noteq> Some \<lparr>type = None, data = None\<rparr>"
    by (simp add: sample_extension_def)
  have h4: "opened sample_extension = []"
    "sample_extension\<lparr>storage := (storage sample_extension)(''contentToAnalyze'' := None)\<rparr>
       = sample_extension"
    by (simp_all add: sample_extension_def)
  have c0: "sidepanel closed_extension = None" "opened closed_extension = []"
    "markup closed_extension = sample_panel" "storage closed_extension = Map.empty"
    by (simp_all add: closed_extension_def)
  from empty_context_click_previews_nothing [OF a1 a2, of "Some 7" sample_extension sample_panel 2]
    h0 h1 h2 h3 h4
  have "contextMenus_onClicked ?i (Some 7) =
          [StorageSet ''contentToAnalyze'' \<lparr>type = None, data = None\<rparr>, SidePanelOpen 7] \<and>
        (\<exists>p'. perform 3 (contextMenus_onClicked ?i (Some 7)) sample_extension =
                 Some (sample_extension\<lparr>sidepanel := Some p', opened := [7]\<rparr>) \<and>
              visible_pages p' = [2] \<and> contentDisplay p' = [])"
    by auto
  moreover from empty_context_click_previews_nothing [OF a1 a2, of "Some 7" closed_extension sample_panel 2]
  have "sidepanel closed_extension = None \<longrightarrow>
        perform 3 (contextMenus_onClicked ?i (Some 7)) closed_extension =
        Some (closed_extension
                \<lparr>storage := (storage closed_extension)(''contentToAnalyze'' \<mapsto> \<lparr>type = None, data = None\<rparr>),
                 sidepanel := (case Some (7::nat) of None \<Rightarrow> None | Some tabId \<Rightarrow> Some (markup closed_extension)),
                 opened := opened closed_extension @ (case Some (7::nat) of None \<Rightarrow> [] | Some tabId \<Rightarrow> [tabId])\<rparr>)"
    by blast
  with c0 have "perform 3 (contextMenus_onClicked ?i (Some 7)) closed_extension =
        Some (closed_extension
                \<lparr>storage := [''contentToAnalyze'' \<mapsto> \<lparr>type = None, data = None\<rparr>],
                 sidepanel := Some sample_panel, opened := [7]\<rparr>)"
    by simp
  ultimately show ?thesis
    by blast
qed

end
